theory Spec2Isabelle
  imports Complex_Main "HOL-Library.Multiset"
begin

text \<open>
  A model of the viewer's front end: the \<open>Viewport\<close> component of \<open>RealDicomViewer\<close>
  (its loader, its navigation state, its playback interval, its rendering and its input
  handlers) as a state machine over the events a viewport can receive, and the upload
  path from \<open>FileUploader.startUpload\<close> to the page's \<open>handleUploadComplete\<close>.
\<close>

section \<open>Backend responses\<close>

text \<open>
  The viewer reads DICOM JSON: every record is an object whose keys are tags and whose
  entries are objects with a \<open>Value\<close> array. An entry is either missing from the record
  (\<open>NoAttr\<close>), present without a \<open>Value\<close> key (\<open>NoValue\<close>), or present with its array.
\<close>

datatype 'a attr = NoAttr | NoValue | Value "'a list"

record series_json =
  attr_0020000E :: "string attr"

record instance_json =
  attr_00080018 :: "string attr"
  attr_00200013 :: "int attr"
  attr_00081190 :: "string attr"

text \<open>\<open>fetch(...)\<close> followed by \<open>.json()\<close>: the promise rejects or yields the parsed body.\<close>

datatype 'a response = Rejected | Body 'a

record backend =
  get_series :: "string \<Rightarrow> series_json list response"
  get_metadata :: "string \<Rightarrow> instance_json list response"

datatype error = NoSeriesFound | TypeError | FetchFailure

section \<open>The sequence loader\<close>

record DicomImage =
  imageId :: "string option"
  instanceNumber :: int
  url :: string

text \<open>
  \<open>obj[tag].Value[0]\<close>: reading \<open>Value\<close> of a missing entry, or indexing a missing
  \<open>Value\<close>, throws a TypeError; indexing an empty array yields \<open>undefined\<close> (\<open>None\<close>).
\<close>

definition first_value :: "'a attr \<Rightarrow> error + 'a option" where
  "first_value a =
     (case a of
        NoAttr \<Rightarrow> Inl TypeError
      | NoValue \<Rightarrow> Inl TypeError
      | Value vs \<Rightarrow> Inr (case vs of [] \<Rightarrow> None | v # _ \<Rightarrow> Some v))"

text \<open>\<open>obj[tag]?.Value[0]\<close>: the optional chain yields \<open>undefined\<close> for a missing entry.\<close>

definition first_value_opt :: "'a attr \<Rightarrow> error + 'a option" where
  "first_value_opt a =
     (case a of
        NoAttr \<Rightarrow> Inr None
      | NoValue \<Rightarrow> Inl TypeError
      | Value vs \<Rightarrow> Inr (case vs of [] \<Rightarrow> None | v # _ \<Rightarrow> Some v))"

text \<open>\<open>v || d\<close> on a number or \<open>undefined\<close>: \<open>undefined\<close> and \<open>0\<close> are falsy.\<close>

definition js_or :: "int option \<Rightarrow> int \<Rightarrow> int" where
  "js_or v d = (case v of None \<Rightarrow> d | Some n \<Rightarrow> if n = 0 then d else n)"

text \<open>\<open>s.replace(pat, rep)\<close> with a string pattern replaces the first occurrence only.\<close>

fun replace_first :: "string \<Rightarrow> string \<Rightarrow> string \<Rightarrow> string" where
  "replace_first pat rep [] = (if pat = [] then rep else [])"
| "replace_first pat rep (c # cs) =
     (if take (length pat) (c # cs) = pat then rep @ drop (length pat) (c # cs)
      else c # replace_first pat rep cs)"

text \<open>The body of the \<open>map\<close> callback of \<open>loadDicomImages\<close>, for one record at one position.\<close>

definition to_image :: "instance_json \<Rightarrow> nat \<Rightarrow> error + DicomImage" where
  "to_image inst index =
     (case first_value (attr_00080018 inst) of
        Inl e \<Rightarrow> Inl e
      | Inr iid \<Rightarrow>
          (case first_value_opt (attr_00200013 inst) of
             Inl e \<Rightarrow> Inl e
           | Inr num \<Rightarrow>
               (case first_value (attr_00081190 inst) of
                  Inl e \<Rightarrow> Inl e
                | Inr None \<Rightarrow> Inl TypeError
                | Inr (Some u) \<Rightarrow>
                    Inr \<lparr>imageId = iid,
                         instanceNumber = js_or num (int index + 1),
                         url = replace_first ''wadouri:'' '''' u\<rparr>)))"

text \<open>\<open>instancesData.map((instance, index) => ...)\<close>; the first throw aborts the map.\<close>

fun map_images :: "nat \<Rightarrow> instance_json list \<Rightarrow> error + DicomImage list" where
  "map_images index [] = Inr []"
| "map_images index (inst # rest) =
     (case to_image inst index of
        Inl e \<Rightarrow> Inl e
      | Inr img \<Rightarrow>
          (case map_images (Suc index) rest of
             Inl e \<Rightarrow> Inl e
           | Inr imgs \<Rightarrow> Inr (img # imgs)))"

definition series_url :: "string \<Rightarrow> string" where
  "series_url studyUid = ''http://localhost:9999/studies/'' @ studyUid @ ''/series''"

definition metadata_url :: "string \<Rightarrow> string option \<Rightarrow> string" where
  "metadata_url studyUid seriesUid =
     ''http://localhost:9999/studies/'' @ studyUid @ ''/series/'' @
     (case seriesUid of None \<Rightarrow> ''undefined'' | Some u \<Rightarrow> u) @ ''/metadata''"

text \<open>
  The \<open>try\<close> block of \<open>loadDicomImages\<close> up to and including the sort: \<open>Inl\<close> is the
  exception that reaches the \<open>catch\<close>, \<open>Inr\<close> the array handed to \<open>setImages\<close>.
  \<open>Array.prototype.sort\<close> is stable, as is \<open>sort_key\<close>.
\<close>

definition fetch_images :: "backend \<Rightarrow> string \<Rightarrow> error + DicomImage list" where
  "fetch_images b studyUid =
     (case get_series b (series_url studyUid) of
        Rejected \<Rightarrow> Inl FetchFailure
      | Body seriesData \<Rightarrow>
          (case seriesData of
             [] \<Rightarrow> Inl NoSeriesFound
           | first # _ \<Rightarrow>
               (case first_value (attr_0020000E first) of
                  Inl e \<Rightarrow> Inl e
                | Inr seriesUid \<Rightarrow>
                    (case get_metadata b (metadata_url studyUid seriesUid) of
                       Rejected \<Rightarrow> Inl FetchFailure
                     | Body instancesData \<Rightarrow>
                         (case map_images 0 instancesData of
                            Inl e \<Rightarrow> Inl e
                          | Inr dicomImages \<Rightarrow> Inr (sort_key instanceNumber dicomImages))))))"

text \<open>
  The records the \<open>map\<close> callback does not throw on: an identifier entry with a
  \<open>Value\<close> array, an instance number entry that is absent or has one, and a URL entry
  whose array has a first element.
\<close>

definition mappable :: "instance_json \<Rightarrow> bool" where
  "mappable inst \<longleftrightarrow>
     (case attr_00080018 inst of Value vs \<Rightarrow> True | _ \<Rightarrow> False) \<and>
     (case attr_00200013 inst of NoValue \<Rightarrow> False | _ \<Rightarrow> True) \<and>
     (case attr_00081190 inst of Value (u # us) \<Rightarrow> True | _ \<Rightarrow> False)"

section \<open>The viewport component\<close>

datatype view_kind = Axial | Coronal | Sagittal | View3d

text \<open>
  What one call of \<open>renderCurrentImage\<close> leaves behind once it has assigned \<open>img.src\<close>:
  the \<open>onload\<close>/\<open>onerror\<close> closures, which hold the canvas element, the slice and the
  zoom, pan and view of the render that issued them.
\<close>

record render_request =
  req_canvas :: nat
  req_image :: DicomImage
  req_zoom :: real
  req_pan :: "real \<times> real"
  req_view :: view_kind

text \<open>The decoded image's size and the canvas's layout size when \<open>onload\<close> runs.\<close>

record asset_dims =
  img_width :: real
  img_height :: real
  offset_width :: real
  offset_height :: real

record frame =
  fr_image :: DicomImage
  fr_canvas_width :: real
  fr_canvas_height :: real
  fr_x :: real
  fr_y :: real
  fr_width :: real
  fr_height :: real
  fr_crosshair :: bool

datatype surface = Blank | Frame frame | Placeholder

text \<open>The handle of \<open>setInterval\<close> with the length its callback closed over.\<close>

record timer =
  timer_id :: nat
  period_ms :: nat
  captured_length :: nat

text \<open>
  One mounted \<open>Viewport\<close>: its props, its \<open>useState\<close> cells, and the resources its effects
  and its JSX own. \<open>canvas\<close> is the element behind \<open>canvasRef\<close> (none while the spinner
  is shown), \<open>surface\<close> what that element shows, \<open>inflight\<close> the image loads not yet
  settled, \<open>pending\<close> the study identifiers of the \<open>loadDicomImages\<close> calls not yet
  settled. \<open>images_id\<close> stands for the identity of the array held in \<open>images\<close>; the two
  \<open>deps\<close> fields are the dependency arrays the effects last ran with.
  \<open>canvases_created\<close> and \<open>timers_created\<close> number the canvas elements and the
  intervals, \<open>loads_started\<close> counts the calls of \<open>loadDicomImages\<close>. Numbers that are
  doubles in the source are reals here: rounding is not modelled.

  Effects run after the commit, not with it. An interval stays armed from the moment the
  new state is committed until the playback effect's cleanup clears it, and its callback
  can fire in between, with the length it closed over. \<open>stale_interval\<close> is the interval
  the latest cleanup cleared: the one whose callback may still have fired.
\<close>

record viewport =
  studyUid :: string
  view :: view_kind
  isLoading :: bool
  images :: "DicomImage list"
  currentImageIndex :: int
  isPlaying :: bool
  zoom :: real
  pan :: "real \<times> real"
  mounted :: bool
  canvas :: "nat option"
  surface :: surface
  canvases_created :: nat
  inflight :: "render_request list"
  interval :: "timer option"
  timers_created :: nat
  playback_deps :: "bool \<times> view_kind \<times> nat"
  render_deps :: "nat \<times> int \<times> real \<times> (real \<times> real)"
  images_id :: nat
  pending :: "string list"
  loads_started :: nat
  stale_interval :: "timer option"

text \<open>The first render of a viewport and its effects: only the load effect does anything.\<close>

definition mount :: "view_kind \<Rightarrow> string \<Rightarrow> viewport" where
  "mount v sid =
     \<lparr>studyUid = sid, view = v, isLoading = True, images = [], currentImageIndex = 0,
      isPlaying = False, zoom = 1, pan = (0, 0), mounted = True, canvas = None,
      surface = Blank, canvases_created = 0, inflight = [], interval = None,
      timers_created = 0, playback_deps = (False, v, 0), render_deps = (0, 0, 1, (0, 0)),
      images_id = 0, pending = [sid], loads_started = 1, stale_interval = None\<rparr>"

subsection \<open>Rendering\<close>

datatype render_outcome = EarlyReturn | Caught error | Requested render_request

text \<open>
  \<open>renderCurrentImage\<close>: returns early without a canvas or without images; reading
  \<open>.url\<close> of \<open>images[currentImageIndex]\<close> out of range throws inside the \<open>try\<close>.
\<close>

definition renderCurrentImage_outcome :: "viewport \<Rightarrow> render_outcome" where
  "renderCurrentImage_outcome s =
     (case canvas s of
        None \<Rightarrow> EarlyReturn
      | Some c \<Rightarrow>
          if length (images s) = 0 then EarlyReturn
          else if 0 \<le> currentImageIndex s \<and> currentImageIndex s < int (length (images s))
          then Requested \<lparr>req_canvas = c,
                           req_image = images s ! nat (currentImageIndex s),
                           req_zoom = zoom s, req_pan = pan s, req_view = view s\<rparr>
          else Caught TypeError)"

definition renderCurrentImage :: "viewport \<Rightarrow> viewport" where
  "renderCurrentImage s =
     (case renderCurrentImage_outcome s of
        Requested r \<Rightarrow> s\<lparr>inflight := inflight s @ [r]\<rparr>
      | _ \<Rightarrow> s)"

text \<open>
  The \<open>onload\<close> closure. Where \<open>img.height\<close> or the canvas height is 0 the source
  computes with Infinity or NaN and the model with HOL's \<open>x / 0 = 0\<close>.
\<close>

definition onload :: "render_request \<Rightarrow> asset_dims \<Rightarrow> frame" where
  "onload r d =
     (let cw = offset_width d; ch = offset_height d;
          imgAspect = img_width d / img_height d;
          canvasAspect = cw / ch;
          drawWidth = (if imgAspect > canvasAspect then cw * req_zoom r
                       else (ch * imgAspect) * req_zoom r);
          drawHeight = (if imgAspect > canvasAspect then (cw / imgAspect) * req_zoom r
                        else ch * req_zoom r)
      in \<lparr>fr_image = req_image r, fr_canvas_width = cw, fr_canvas_height = ch,
          fr_x = (cw - drawWidth) / 2 + fst (req_pan r),
          fr_y = (ch - drawHeight) / 2 + snd (req_pan r),
          fr_width = drawWidth, fr_height = drawHeight,
          fr_crosshair = (req_view r \<noteq> View3d)\<rparr>)"

text \<open>
  The \<open>k\<close>-th image load settles: \<open>onload\<close> (with the sizes) or \<open>onerror\<close> (without)
  paints the canvas element the closure holds; painting an element that is no longer in
  the document shows nothing.
\<close>

definition settle_asset :: "nat \<Rightarrow> asset_dims option \<Rightarrow> viewport \<Rightarrow> viewport" where
  "settle_asset k d s =
     (if k < length (inflight s) then
        (let r = inflight s ! k;
             s1 = s\<lparr>inflight := take k (inflight s) @ drop (Suc k) (inflight s)\<rparr>
         in if canvas s = Some (req_canvas r)
            then s1\<lparr>surface := (case d of Some dims \<Rightarrow> Frame (onload r dims) | None \<Rightarrow> Placeholder)\<rparr>
            else s1)
      else s)"

subsection \<open>Effects\<close>

text \<open>The effect on \<open>[images, currentImageIndex, zoom, pan]\<close>.\<close>

definition render_effect :: "viewport \<Rightarrow> viewport" where
  "render_effect s =
     (let deps = (images_id s, currentImageIndex s, zoom s, pan s)
      in if deps = render_deps s then s
         else if length (images s) > 0 then renderCurrentImage (s\<lparr>render_deps := deps\<rparr>)
         else s\<lparr>render_deps := deps\<rparr>)"

text \<open>
  The effect on \<open>[isPlaying, view, images.length]\<close>: when a dependency changed, the
  previous run's cleanup clears its interval, which is stale from then on, and the body
  may set a new one.
\<close>

definition playback_effect :: "viewport \<Rightarrow> viewport" where
  "playback_effect s =
     (let deps = (isPlaying s, view s, length (images s))
      in if deps = playback_deps s then s
         else if isPlaying s \<and> view s \<noteq> View3d \<and> length (images s) > 1
         then s\<lparr>interval := Some \<lparr>timer_id = timers_created s, period_ms = 150,
                                   captured_length = length (images s)\<rparr>,
                timers_created := Suc (timers_created s), playback_deps := deps,
                stale_interval := interval s\<rparr>
         else s\<lparr>interval := None, playback_deps := deps, stale_interval := interval s\<rparr>)"

text \<open>
  The commit of a re-render. The canvas is part of the tree exactly while \<open>isLoading\<close>
  is false. An interval cleared by an earlier cleanup cannot fire any more.
\<close>

definition commit :: "viewport \<Rightarrow> viewport" where
  "commit s =
     (if isLoading s then s\<lparr>canvas := None, surface := Blank, stale_interval := None\<rparr>
      else (case canvas s of
              Some c \<Rightarrow> s\<lparr>stale_interval := None\<rparr>
            | None \<Rightarrow> s\<lparr>canvas := Some (canvases_created s), surface := Blank,
                        canvases_created := Suc (canvases_created s),
                        stale_interval := None\<rparr>))"

subsection \<open>Handlers\<close>

text \<open>JavaScript's \<open>%\<close> takes the sign of the dividend. The divisor here is never 0.\<close>

definition js_rem :: "int \<Rightarrow> int \<Rightarrow> int" where
  "js_rem a n = sgn a * (\<bar>a\<bar> mod \<bar>n\<bar>)"

text \<open>
  A changed \<open>studyUid\<close> prop runs the load effect: \<open>loadDicomImages\<close> sets \<open>isLoading\<close>
  and suspends on the first fetch.
\<close>

definition study_changed :: "string \<Rightarrow> viewport \<Rightarrow> viewport" where
  "study_changed sid s =
     (if sid = studyUid s then s
      else s\<lparr>studyUid := sid, isLoading := True, pending := pending s @ [sid],
             loads_started := Suc (loads_started s)\<rparr>)"

text \<open>
  The \<open>k\<close>-th suspended \<open>loadDicomImages\<close> call resumes against the backend \<open>b\<close> and runs
  to its end, through the \<open>try\<close> or through the \<open>catch\<close>.
\<close>

definition load_settled :: "nat \<Rightarrow> backend \<Rightarrow> viewport \<Rightarrow> viewport" where
  "load_settled k b s =
     (if k < length (pending s) then
        (let s1 = s\<lparr>pending := take k (pending s) @ drop (Suc k) (pending s)\<rparr>
         in case fetch_images b (pending s ! k) of
              Inl e \<Rightarrow> s1\<lparr>isLoading := False\<rparr>
            | Inr dicomImages \<Rightarrow>
                s1\<lparr>images := dicomImages, images_id := Suc (images_id s),
                   currentImageIndex := int (length dicomImages div 2),
                   isLoading := False\<rparr>)
      else s)"

text \<open>\<open>handleWheel\<close>; the canvas that carries it exists only while not loading.\<close>

definition handleWheel :: "real \<Rightarrow> bool \<Rightarrow> viewport \<Rightarrow> viewport" where
  "handleWheel deltaY ctrlKey s =
     (let delta = (if deltaY > 0 then - 1 else 1 :: int)
      in if ctrlKey then s\<lparr>zoom := max (1 / 10) (min 5 (zoom s + real_of_int delta * (1 / 10)))\<rparr>
         else if length (images s) > 1
         then s\<lparr>currentImageIndex :=
                  max 0 (min (int (length (images s)) - 1) (currentImageIndex s + delta))\<rparr>
         else s)"

text \<open>
  The range input of the slider, rendered with \<open>min\<close> and \<open>max\<close>: the value it holds
  and reports is the requested one brought between the two.
\<close>

definition range_input_value :: "int \<Rightarrow> int \<Rightarrow> int \<Rightarrow> int" where
  "range_input_value lo hi requested = (if hi < lo then lo else max lo (min hi requested))"

text \<open>The slider's \<open>onChange\<close>: the reported value is stored as it is.\<close>

definition handleSliderChange :: "int \<Rightarrow> viewport \<Rightarrow> viewport" where
  "handleSliderChange v s = s\<lparr>currentImageIndex := v\<rparr>"

text \<open>The play button's \<open>onClick\<close>.\<close>

definition togglePlay :: "viewport \<Rightarrow> viewport" where
  "togglePlay s = s\<lparr>isPlaying := \<not> isPlaying s\<rparr>"

text \<open>The interval's callback, with the length it closed over.\<close>

definition tick :: "viewport \<Rightarrow> viewport" where
  "tick s =
     (case interval s of
        None \<Rightarrow> s
      | Some t \<Rightarrow> s\<lparr>currentImageIndex :=
                      js_rem (currentImageIndex s + 1) (int (captured_length t))\<rparr>)"

text \<open>
  The callback of the interval the latest cleanup cleared, fired after the new state was
  committed: the updater takes the committed index and the length of the old closure.
\<close>

definition stale_tick :: "viewport \<Rightarrow> viewport" where
  "stale_tick s =
     (case stale_interval s of
        None \<Rightarrow> s
      | Some t \<Rightarrow> s\<lparr>currentImageIndex :=
                      js_rem (currentImageIndex s + 1) (int (captured_length t))\<rparr>)"

text \<open>Which controls the JSX renders.\<close>

definition playback_controls_shown :: "viewport \<Rightarrow> bool" where
  "playback_controls_shown s \<longleftrightarrow> view s \<noteq> View3d \<and> length (images s) > 1"

definition slider_shown :: "viewport \<Rightarrow> bool" where
  "slider_shown s \<longleftrightarrow> \<not> isLoading s \<and> view s \<noteq> View3d \<and> length (images s) > 1"

subsection \<open>Events\<close>

text \<open>
  What can happen to a mounted viewport. An event a control cannot produce is ignored:
  a wheel event without the canvas, a click on a button or a change of a slider that is
  not rendered. \<open>SliderChange\<close> carries the value requested of the range input, which is
  rendered with \<open>min = 0\<close> and \<open>max = images.length - 1\<close>. \<open>StaleTick\<close> is the callback
  of the interval that the effects of the event before it cleared.
\<close>

datatype event =
    StudyChanged string
  | LoadSettled nat backend
  | Wheel real bool
  | SliderChange int
  | TogglePlay
  | Tick
  | StaleTick
  | AssetLoaded nat asset_dims
  | AssetFailed nat
  | Unmount

fun handle :: "event \<Rightarrow> viewport \<Rightarrow> viewport" where
  "handle (StudyChanged sid) s = study_changed sid s"
| "handle (LoadSettled k b) s = load_settled k b s"
| "handle (Wheel deltaY ctrlKey) s = (if isLoading s then s else handleWheel deltaY ctrlKey s)"
| "handle (SliderChange requested) s =
     (if slider_shown s
      then handleSliderChange (range_input_value 0 (int (length (images s)) - 1) requested) s
      else s)"
| "handle TogglePlay s = (if playback_controls_shown s then togglePlay s else s)"
| "handle Tick s = tick s"
| "handle StaleTick s = stale_tick s"
| "handle (AssetLoaded k d) s = settle_asset k (Some d) s"
| "handle (AssetFailed k) s = settle_asset k None s"
| "handle Unmount s = s"

text \<open>
  One event: the handler's state updates, the commit of the re-render, then the effects
  whose dependencies changed. What can happen between that commit and those effects is
  the callback of the interval they clear, and it is the event \<open>StaleTick\<close> right after.
  Unmounting runs the cleanups; nothing reaches an unmounted component.
\<close>

definition unmount :: "viewport \<Rightarrow> viewport" where
  "unmount s =
     s\<lparr>mounted := False, canvas := None, surface := Blank, interval := None,
       stale_interval := None\<rparr>"

definition rerender :: "viewport \<Rightarrow> viewport" where
  "rerender s = playback_effect (render_effect (commit s))"

definition step :: "event \<Rightarrow> viewport \<Rightarrow> viewport" where
  "step e s =
     (if \<not> mounted s then s
      else (case e of
              Unmount \<Rightarrow> unmount s
            | _ \<Rightarrow> rerender (handle e s)))"

definition run :: "event list \<Rightarrow> viewport \<Rightarrow> viewport" where
  "run es s = foldl (\<lambda>s e. step e s) s es"

text \<open>What the JSX of a viewport shows: the spinner, or the canvas with its overlays.\<close>

datatype display = Spinner | Canvas surface bool "int option"

definition display :: "viewport \<Rightarrow> display" where
  "display s =
     (if isLoading s then Spinner
      else Canvas (surface s) (slider_shown s)
             (if length (images s) > 0 \<and> 0 \<le> currentImageIndex s
                 \<and> currentImageIndex s < int (length (images s))
              then Some (instanceNumber (images s ! nat (currentImageIndex s))) else None))"

text \<open>\<open>RealDicomViewer\<close> mounts four viewports on the same study.\<close>

definition mount_grid :: "string \<Rightarrow> viewport list" where
  "mount_grid sid = map (\<lambda>v. mount v sid) [Axial, Coronal, Sagittal, View3d]"

section \<open>Upload and the page shell\<close>

datatype file_kind = ImageFile | MaskFile

record UploadedFile =
  file_obj :: string
  kind :: file_kind
  file_id :: string

record form_data =
  image_file :: string
  mask_file :: string
  radiography_type :: string

record upload_result =
  study_uid :: string
  segmentation_classes :: "string list"

text \<open>
  The upload request: the fetch rejects, or answers with \<open>ok\<close> and a body whose
  \<open>json()\<close> parses (\<open>Some\<close>) or rejects (\<open>None\<close>).
\<close>

datatype upload_response = NetworkError | Answer bool "upload_result option"

text \<open>
  How \<open>startUpload\<close> ends: with an alert, or with \<open>onUploadComplete\<close> scheduled after a
  delay in milliseconds.
\<close>

datatype upload_outcome = Alert string | CompleteAfter nat string "string list"

definition startUpload ::
  "UploadedFile list \<Rightarrow> string \<Rightarrow> (form_data \<Rightarrow> upload_response) \<Rightarrow> upload_outcome" where
  "startUpload uploadedFiles radiographyType server =
     (if length uploadedFiles \<noteq> 2 \<or> radiographyType = []
      then Alert ''Please upload exactly 2 files and select radiography type''
      else
        (case (find (\<lambda>f. kind f = ImageFile) uploadedFiles,
               find (\<lambda>f. kind f = MaskFile) uploadedFiles) of
           (Some imageFile, Some maskFile) \<Rightarrow>
             (case server \<lparr>image_file = file_obj imageFile, mask_file = file_obj maskFile,
                           radiography_type = radiographyType\<rparr> of
                NetworkError \<Rightarrow> Alert ''Upload failed: network''
              | Answer ok body \<Rightarrow>
                  if \<not> ok then Alert ''Upload failed: Upload failed''
                  else (case body of
                          None \<Rightarrow> Alert ''Upload failed: json''
                        | Some result \<Rightarrow>
                            CompleteAfter 500 (study_uid result) (segmentation_classes result)))
         | _ \<Rightarrow> Alert ''Please ensure you have one image file and one mask file''))"

datatype page_step = UploadStep | ViewerStep

record index_page =
  currentStep :: page_step
  studyId :: string
  sidebarCollapsed :: bool

definition index_initial :: index_page where
  "index_initial = \<lparr>currentStep = UploadStep, studyId = [], sidebarCollapsed = False\<rparr>"

definition handleUploadComplete :: "string \<Rightarrow> index_page \<Rightarrow> index_page" where
  "handleUploadComplete newStudyId p = p\<lparr>studyId := newStudyId, currentStep := ViewerStep\<rparr>"

text \<open>
  The page renders the uploader with \<open>onUploadComplete = handleUploadComplete\<close>; this is
  the page once the upload has ended and a scheduled callback has fired.
\<close>

definition upload_then_complete ::
  "UploadedFile list \<Rightarrow> string \<Rightarrow> (form_data \<Rightarrow> upload_response) \<Rightarrow> index_page \<Rightarrow> index_page" where
  "upload_then_complete uploadedFiles radiographyType server p =
     (case startUpload uploadedFiles radiographyType server of
        Alert msg \<Rightarrow> p
      | CompleteAfter delay uid classes \<Rightarrow> handleUploadComplete uid p)"

section \<open>Invariants of a viewport\<close>

text \<open>
  The canvas element exists exactly while a mounted viewport is not loading, and
  without it nothing is shown.
\<close>

definition canvas_ok :: "viewport \<Rightarrow> bool" where
  "canvas_ok s \<longleftrightarrow>
     (canvas s = None \<longrightarrow> surface s = Blank) \<and>
     (if mounted s then (canvas s = None \<longleftrightarrow> isLoading s) else canvas s = None)"

text \<open>
  The playback effect is in step with the state, and an interval exists exactly when
  its condition holds, with the period of the source and the current length.
\<close>

definition timer_ok :: "viewport \<Rightarrow> bool" where
  "timer_ok s \<longleftrightarrow>
     (if mounted s
      then playback_deps s = (isPlaying s, view s, length (images s)) \<and>
           (case interval s of
              None \<Rightarrow> \<not> (isPlaying s \<and> view s \<noteq> View3d \<and> length (images s) > 1)
            | Some t \<Rightarrow> isPlaying s \<and> view s \<noteq> View3d \<and> length (images s) > 1 \<and>
                        captured_length t = length (images s) \<and> period_ms t = 150 \<and>
                        timer_id t < timers_created s)
      else interval s = None)"

definition index_ok :: "viewport \<Rightarrow> bool" where
  "index_ok s \<longleftrightarrow>
     (if images s = [] then currentImageIndex s = 0
      else 0 \<le> currentImageIndex s \<and> currentImageIndex s < int (length (images s)))"

definition index_nonneg :: "viewport \<Rightarrow> bool" where
  "index_nonneg s \<longleftrightarrow> 0 \<le> currentImageIndex s"

definition centred :: "frame \<Rightarrow> bool" where
  "centred f \<longleftrightarrow>
     fr_x f = (fr_canvas_width f - fr_width f) / 2 \<and>
     fr_y f = (fr_canvas_height f - fr_height f) / 2"

definition pan_ok :: "viewport \<Rightarrow> bool" where
  "pan_ok s \<longleftrightarrow>
     pan s = (0, 0) \<and> list_all (\<lambda>r. req_pan r = (0, 0)) (inflight s) \<and>
     (case surface s of Frame f \<Rightarrow> centred f | _ \<Rightarrow> True)"

section \<open>Sample data\<close>

definition sample_instance :: "int attr \<Rightarrow> string \<Rightarrow> instance_json" where
  "sample_instance n u =
     \<lparr>attr_00080018 = Value [u], attr_00200013 = n, attr_00081190 = Value [''wadouri:'' @ u]\<rparr>"

definition sample_backend :: "instance_json list \<Rightarrow> backend" where
  "sample_backend insts =
     \<lparr>get_series = (\<lambda>u. Body [\<lparr>attr_0020000E = Value [''ser'']\<rparr>]),
      get_metadata = (\<lambda>u. Body insts)\<rparr>"

definition empty_backend :: backend where
  "empty_backend = \<lparr>get_series = (\<lambda>u. Body []), get_metadata = (\<lambda>u. Rejected)\<rparr>"

definition three_slices :: backend where
  "three_slices =
     sample_backend [sample_instance (Value [1]) ''a'', sample_instance (Value [2]) ''b'',
                     sample_instance (Value [3]) ''c'']"

definition two_slices :: backend where
  "two_slices =
     sample_backend [sample_instance (Value [1]) ''d'', sample_instance (Value [2]) ''e'']"

definition sample_dims :: asset_dims where
  "sample_dims = \<lparr>img_width = 512, img_height = 512, offset_width = 400, offset_height = 300\<rparr>"


definition unsorted_slices :: "instance_json list" where
  "unsorted_slices =
     [sample_instance (Value [2]) ''a'', sample_instance (Value [1]) ''b'',
      sample_instance (Value [2]) ''c'']"

definition scrub_trace :: "event list" where
  "scrub_trace =
     [LoadSettled 0 three_slices, Wheel 1 False, Wheel 1 False, Wheel 1 False,
      SliderChange 2, TogglePlay, Tick]"

definition busy_trace :: "event list" where
  "busy_trace =
     [LoadSettled 0 three_slices, Wheel (- 1) True, Wheel 1 False, SliderChange 2, TogglePlay,
      Tick, StudyChanged ''t'', LoadSettled 0 three_slices, Wheel (- 1) True,
      AssetLoaded 6 sample_dims]"

definition stale_trace :: "event list" where
  "stale_trace =
     [LoadSettled 0 three_slices, Wheel (- 1) False, AssetLoaded 1 sample_dims,
      AssetLoaded 0 sample_dims]"

definition switch_trace :: "event list" where
  "switch_trace =
     [LoadSettled 0 three_slices, TogglePlay, Wheel (- 1) True, StudyChanged ''t'',
      LoadSettled 0 three_slices]"

definition playing_switch_trace :: "event list" where
  "playing_switch_trace = [LoadSettled 0 three_slices, TogglePlay, StudyChanged ''t'', Tick]"

definition stale_tick_trace :: "event list" where
  "stale_tick_trace =
     [LoadSettled 0 three_slices, TogglePlay, StudyChanged ''t'', LoadSettled 0 two_slices,
      StaleTick]"

definition empty_switch_trace :: "event list" where
  "empty_switch_trace =
     [LoadSettled 0 three_slices, StudyChanged ''zzz'', LoadSettled 0 empty_backend,
      Wheel (- 1) False, AssetLoaded 1 sample_dims]"

definition two_files :: "UploadedFile list" where
  "two_files =
     [\<lparr>file_obj = ''scan.nii.gz'', kind = ImageFile, file_id = ''k3j9x2m1q''\<rparr>,
      \<lparr>file_obj = ''labels.nii.gz'', kind = MaskFile, file_id = ''p0w8e7r6t''\<rparr>]"

definition accepting_server :: "form_data \<Rightarrow> upload_response" where
  "accepting_server form =
     Answer True (Some \<lparr>study_uid = ''abc123'', segmentation_classes = [''enamel'', ''dentin'']\<rparr>)"

section \<open>What the effects and handlers leave alone\<close>

lemma renderCurrentImage_fields [simp]:
  "studyUid (renderCurrentImage s) = studyUid s"
  "view (renderCurrentImage s) = view s"
  "isLoading (renderCurrentImage s) = isLoading s"
  "images (renderCurrentImage s) = images s"
  "currentImageIndex (renderCurrentImage s) = currentImageIndex s"
  "isPlaying (renderCurrentImage s) = isPlaying s"
  "zoom (renderCurrentImage s) = zoom s"
  "pan (renderCurrentImage s) = pan s"
  "mounted (renderCurrentImage s) = mounted s"
  "canvas (renderCurrentImage s) = canvas s"
  "surface (renderCurrentImage s) = surface s"
  "canvases_created (renderCurrentImage s) = canvases_created s"
  "interval (renderCurrentImage s) = interval s"
  "timers_created (renderCurrentImage s) = timers_created s"
  "playback_deps (renderCurrentImage s) = playback_deps s"
  "render_deps (renderCurrentImage s) = render_deps s"
  "images_id (renderCurrentImage s) = images_id s"
  "pending (renderCurrentImage s) = pending s"
  "loads_started (renderCurrentImage s) = loads_started s"
  by (simp_all add: renderCurrentImage_def split: render_outcome.split)

lemma render_effect_fields [simp]:
  "studyUid (render_effect s) = studyUid s"
  "view (render_effect s) = view s"
  "isLoading (render_effect s) = isLoading s"
  "images (render_effect s) = images s"
  "currentImageIndex (render_effect s) = currentImageIndex s"
  "isPlaying (render_effect s) = isPlaying s"
  "zoom (render_effect s) = zoom s"
  "pan (render_effect s) = pan s"
  "mounted (render_effect s) = mounted s"
  "canvas (render_effect s) = canvas s"
  "surface (render_effect s) = surface s"
  "canvases_created (render_effect s) = canvases_created s"
  "interval (render_effect s) = interval s"
  "timers_created (render_effect s) = timers_created s"
  "playback_deps (render_effect s) = playback_deps s"
  "images_id (render_effect s) = images_id s"
  "pending (render_effect s) = pending s"
  "loads_started (render_effect s) = loads_started s"
  by (simp_all add: render_effect_def Let_def)

lemma commit_fields [simp]:
  "studyUid (commit s) = studyUid s"
  "view (commit s) = view s"
  "isLoading (commit s) = isLoading s"
  "images (commit s) = images s"
  "currentImageIndex (commit s) = currentImageIndex s"
  "isPlaying (commit s) = isPlaying s"
  "zoom (commit s) = zoom s"
  "pan (commit s) = pan s"
  "mounted (commit s) = mounted s"
  "inflight (commit s) = inflight s"
  "interval (commit s) = interval s"
  "timers_created (commit s) = timers_created s"
  "playback_deps (commit s) = playback_deps s"
  "render_deps (commit s) = render_deps s"
  "images_id (commit s) = images_id s"
  "pending (commit s) = pending s"
  "loads_started (commit s) = loads_started s"
  by (simp_all add: commit_def split: option.split)

lemma playback_effect_fields [simp]:
  "studyUid (playback_effect s) = studyUid s"
  "view (playback_effect s) = view s"
  "isLoading (playback_effect s) = isLoading s"
  "images (playback_effect s) = images s"
  "currentImageIndex (playback_effect s) = currentImageIndex s"
  "isPlaying (playback_effect s) = isPlaying s"
  "zoom (playback_effect s) = zoom s"
  "pan (playback_effect s) = pan s"
  "mounted (playback_effect s) = mounted s"
  "canvas (playback_effect s) = canvas s"
  "surface (playback_effect s) = surface s"
  "canvases_created (playback_effect s) = canvases_created s"
  "inflight (playback_effect s) = inflight s"
  "render_deps (playback_effect s) = render_deps s"
  "images_id (playback_effect s) = images_id s"
  "pending (playback_effect s) = pending s"
  "loads_started (playback_effect s) = loads_started s"
  by (simp_all add: playback_effect_def Let_def)

lemma rerender_fields [simp]:
  "studyUid (rerender s) = studyUid s"
  "view (rerender s) = view s"
  "isLoading (rerender s) = isLoading s"
  "images (rerender s) = images s"
  "currentImageIndex (rerender s) = currentImageIndex s"
  "isPlaying (rerender s) = isPlaying s"
  "zoom (rerender s) = zoom s"
  "pan (rerender s) = pan s"
  "mounted (rerender s) = mounted s"
  "images_id (rerender s) = images_id s"
  "pending (rerender s) = pending s"
  "loads_started (rerender s) = loads_started s"
  by (simp_all add: rerender_def)

lemma rerender_canvas_surface [simp]:
  "canvas (rerender s) = canvas (commit s)"
  "surface (rerender s) = surface (commit s)"
  "canvases_created (rerender s) = canvases_created (commit s)"
  by (simp_all add: rerender_def)

lemma rerender_timer [simp]:
  "interval (rerender s) = interval (playback_effect s)"
  "timers_created (rerender s) = timers_created (playback_effect s)"
  "playback_deps (rerender s) = playback_deps (playback_effect s)"
  by (simp_all add: rerender_def playback_effect_def Let_def)

lemma rerender_canvas_ok: "mounted s \<Longrightarrow> canvas_ok (rerender s)"
  by (simp add: canvas_ok_def commit_def split: option.split)

lemma rerender_timer_ok:
  assumes "mounted s"
    and "playback_deps s = (isPlaying s, view s, length (images s)) \<Longrightarrow> timer_ok s"
  shows "timer_ok (rerender s)"
  using assms by (auto simp: timer_ok_def playback_effect_def Let_def split: option.splits)


section \<open>Stepping and the invariants\<close>

lemma handle_static [simp]:
  "mounted (handle e s) = mounted s"
  "view (handle e s) = view s"
  "interval (handle e s) = interval s"
  "timers_created (handle e s) = timers_created s"
  "playback_deps (handle e s) = playback_deps s"
  "pan (handle e s) = pan s"
  "canvas (handle e s) = canvas s"
  "canvases_created (handle e s) = canvases_created s"
  "render_deps (handle e s) = render_deps s"
  by (cases e; simp add: study_changed_def load_settled_def handleWheel_def
        handleSliderChange_def togglePlay_def tick_def stale_tick_def settle_asset_def Let_def
        split: sum.split option.split)+

lemma step_unmounted [simp]: "\<not> mounted s \<Longrightarrow> step e s = s"
  by (simp add: step_def)

lemma step_Unmount [simp]: "mounted s \<Longrightarrow> step Unmount s = unmount s"
  by (simp add: step_def)

lemma step_mounted:
  "mounted s \<Longrightarrow> e \<noteq> Unmount \<Longrightarrow> step e s = rerender (handle e s)"
  by (cases e) (simp_all add: step_def)

lemma step_canvas_ok: "canvas_ok s \<Longrightarrow> canvas_ok (step e s)"
proof (cases "mounted s")
  case False
  then show "canvas_ok s \<Longrightarrow> canvas_ok (step e s)" by simp
next
  case True
  show "canvas_ok (step e s)"
  proof (cases "e = Unmount")
    case True
    with \<open>mounted s\<close> show ?thesis by (simp add: unmount_def canvas_ok_def)
  next
    case False
    with \<open>mounted s\<close> show ?thesis by (simp add: step_mounted rerender_canvas_ok)
  qed
qed

lemma handle_timer_ok:
  assumes "timer_ok s" and "mounted s"
    and "playback_deps (handle e s) =
           (isPlaying (handle e s), view (handle e s), length (images (handle e s)))"
  shows "timer_ok (handle e s)"
  using assms by (auto simp: timer_ok_def split: option.splits)

lemma step_timer_ok: "timer_ok s \<Longrightarrow> timer_ok (step e s)"
proof (cases "mounted s")
  case False
  then show "timer_ok s \<Longrightarrow> timer_ok (step e s)" by simp
next
  case True
  assume ok: "timer_ok s"
  show "timer_ok (step e s)"
  proof (cases "e = Unmount")
    case True
    with \<open>mounted s\<close> show ?thesis by (simp add: unmount_def timer_ok_def)
  next
    case False
    have "timer_ok (rerender (handle e s))"
      by (rule rerender_timer_ok) (simp_all add: True handle_timer_ok [OF ok True])
    with False True show ?thesis by (simp add: step_mounted)
  qed
qed

lemma js_rem_in_range:
  assumes "0 \<le> a" and "0 < n"
  shows "js_rem (a + 1) n = (a + 1) mod n" "0 \<le> js_rem (a + 1) n" "js_rem (a + 1) n < n"
  using assms by (simp_all add: js_rem_def)

lemma half_in_range: "xs \<noteq> [] \<Longrightarrow> int (length xs div 2) < int (length xs)"
  by (cases xs) simp_all

lemma range_input_value_in_range:
  assumes "lo \<le> hi"
  shows "lo \<le> range_input_value lo hi requested" and "range_input_value lo hi requested \<le> hi"
  using assms by (simp_all add: range_input_value_def)

lemma js_rem_nonneg:
  assumes "0 \<le> a"
  shows "0 \<le> js_rem (a + 1) n"
proof (cases "n = 0")
  case True
  with assms show ?thesis by (simp add: js_rem_def)
next
  case False
  then have "0 < \<bar>n\<bar>" by simp
  then have "0 \<le> (a + 1) mod \<bar>n\<bar>" by (rule pos_mod_sign)
  with assms show ?thesis by (simp add: js_rem_def)
qed

lemma handle_index_nonneg:
  assumes "index_nonneg s"
  shows "index_nonneg (handle e s)"
proof (cases e)
  case (SliderChange requested)
  then show ?thesis using assms
    by (simp add: index_nonneg_def handleSliderChange_def range_input_value_def)
next
  case Tick
  then show ?thesis using assms
    by (simp add: index_nonneg_def tick_def js_rem_nonneg split: option.split)
next
  case StaleTick
  then show ?thesis using assms
    by (simp add: index_nonneg_def stale_tick_def js_rem_nonneg split: option.split)
qed (use assms in \<open>simp_all add: index_nonneg_def study_changed_def load_settled_def
        handleWheel_def togglePlay_def settle_asset_def Let_def split: sum.split\<close>)

lemma step_index_nonneg:
  assumes "index_nonneg s"
  shows "index_nonneg (step e s)"
proof (cases "mounted s")
  case False
  with assms show ?thesis by simp
next
  case True
  show ?thesis
  proof (cases "e = Unmount")
    case True
    with \<open>mounted s\<close> assms show ?thesis by (simp add: index_nonneg_def unmount_def)
  next
    case False
    with True handle_index_nonneg [OF assms, of e] show ?thesis
      by (simp add: step_mounted index_nonneg_def)
  qed
qed

lemma handle_index_ok:
  assumes "index_ok s" and "timer_ok s" and "mounted s" and "e \<noteq> StaleTick"
  shows "index_ok (handle e s)"
proof (cases e)
  case (LoadSettled k b)
  then show ?thesis using assms(1)
    by (auto simp: index_ok_def load_settled_def Let_def half_in_range split: sum.split)
next
  case (Wheel dy ctrl)
  then show ?thesis using assms(1)
    by (auto simp: index_ok_def handleWheel_def Let_def)
next
  case (SliderChange requested)
  show ?thesis
  proof (cases "slider_shown s")
    case False
    with SliderChange assms(1) show ?thesis by simp
  next
    case True
    then have "0 \<le> int (length (images s)) - 1" and ne: "images s \<noteq> []"
      by (auto simp: slider_shown_def)
    from range_input_value_in_range [OF this(1), of requested] SliderChange True ne
    show ?thesis
      by (simp add: index_ok_def handleSliderChange_def)
  qed
next
  case StaleTick
  with assms(4) show ?thesis by simp
next
  case Tick
  show ?thesis
  proof (cases "interval s")
    case None
    with Tick assms(1) show ?thesis by (simp add: tick_def)
  next
    case (Some t)
    with assms(2,3) have len: "captured_length t = length (images s)" "1 < length (images s)"
      by (simp_all add: timer_ok_def)
    have ne: "images s \<noteq> []"
    proof
      assume "images s = []"
      then have "length (images s) = 0" by simp
      with len(2) show False by simp
    qed
    with assms(1) have idx: "0 \<le> currentImageIndex s" by (simp add: index_ok_def)
    have pos: "0 < int (length (images s))" using len(2) by linarith
    have "images (handle e s) = images s"
      and "currentImageIndex (handle e s) = js_rem (currentImageIndex s + 1) (int (length (images s)))"
      using Tick Some len by (simp_all add: tick_def)
    with ne js_rem_in_range(2,3) [OF idx pos] show ?thesis
      unfolding index_ok_def by simp
  qed
qed (use assms(1) in \<open>simp_all add: index_ok_def study_changed_def togglePlay_def
        settle_asset_def Let_def\<close>)

lemma rerender_index_ok [simp]: "index_ok (rerender s) = index_ok s"
  by (simp add: index_ok_def)

lemma unmount_index_ok [simp]: "index_ok (unmount s) = index_ok s"
  by (simp add: index_ok_def unmount_def)

lemma step_index_ok:
  assumes "index_ok s" and "timer_ok s" and "e \<noteq> StaleTick"
  shows "index_ok (step e s)"
proof (cases "mounted s")
  case False
  with assms(1) show ?thesis by simp
next
  case True
  show ?thesis
  proof (cases "e = Unmount")
    case True
    with \<open>mounted s\<close> assms(1) show ?thesis by simp
  next
    case False
    with True show ?thesis
      by (simp add: step_mounted handle_index_ok [OF assms(1,2) True assms(3)])
  qed
qed


lemma centred_onload: "req_pan r = (0, 0) \<Longrightarrow> centred (onload r d)"
  by (simp add: centred_def onload_def Let_def)

lemma list_all_remove_nth: "list_all P xs \<Longrightarrow> list_all P (take k xs @ drop (Suc k) xs)"
  by (auto simp: list_all_iff dest: in_set_takeD in_set_dropD)

lemma settle_asset_pan_ok:
  assumes "pan_ok s"
  shows "pan_ok (settle_asset k d s)"
proof (cases "k < length (inflight s)")
  case False
  with assms show ?thesis by (simp add: settle_asset_def)
next
  case True
  from assms have i: "list_all (\<lambda>r. req_pan r = (0, 0)) (inflight s)"
    by (simp add: pan_ok_def)
  with True have "req_pan (inflight s ! k) = (0, 0)"
    by (simp add: list_all_length)
  then have "centred (onload (inflight s ! k) dims)" for dims
    by (rule centred_onload)
  with assms True list_all_remove_nth [OF i, of k] show ?thesis
    by (simp add: pan_ok_def settle_asset_def Let_def split: option.split)
qed

lemma handle_pan_ok: "pan_ok s \<Longrightarrow> pan_ok (handle e s)"
  by (cases e)
    (simp_all add: settle_asset_pan_ok,
     simp_all add: pan_ok_def study_changed_def load_settled_def handleWheel_def
       handleSliderChange_def togglePlay_def tick_def stale_tick_def Let_def
       split: sum.split option.split)

lemma inflight_render_effect:
  "inflight (render_effect s) = inflight s \<or>
   (\<exists>r. inflight (render_effect s) = inflight s @ [r] \<and> req_pan r = pan s)"
  by (auto simp: render_effect_def renderCurrentImage_def renderCurrentImage_outcome_def Let_def
      split: option.split)

lemma rerender_inflight [simp]: "inflight (rerender s) = inflight (render_effect (commit s))"
  by (simp add: rerender_def)

lemma commit_surface: "surface (commit s) = Blank \<or> surface (commit s) = surface s"
  by (simp add: commit_def split: option.split)

lemma rerender_pan_ok:
  assumes "pan_ok s"
  shows "pan_ok (rerender s)"
proof -
  from assms have p: "pan s = (0, 0)" and i: "list_all (\<lambda>r. req_pan r = (0, 0)) (inflight s)"
    and f: "case surface s of Frame f \<Rightarrow> centred f | _ \<Rightarrow> True"
    by (simp_all add: pan_ok_def)
  from inflight_render_effect [of "commit s"] p i
  have "list_all (\<lambda>r. req_pan r = (0, 0)) (inflight (rerender s))"
    by auto
  moreover from commit_surface [of s] f
  have "case surface (rerender s) of Frame f \<Rightarrow> centred f | _ \<Rightarrow> True"
    by auto
  ultimately show ?thesis using p by (simp add: pan_ok_def)
qed

lemma step_pan_ok:
  assumes "pan_ok s"
  shows "pan_ok (step e s)"
proof (cases "mounted s")
  case False
  with assms show ?thesis by simp
next
  case True
  show ?thesis
  proof (cases "e = Unmount")
    case True
    with \<open>mounted s\<close> assms show ?thesis by (simp add: unmount_def pan_ok_def)
  next
    case False
    with True show ?thesis by (simp add: step_mounted rerender_pan_ok handle_pan_ok [OF assms])
  qed
qed

lemma run_Nil [simp]: "run [] s = s"
  by (simp add: run_def)

lemma run_Cons [simp]: "run (e # es) s = run es (step e s)"
  by (simp add: run_def)

lemma run_snoc [simp]: "run (es @ [e]) s = step e (run es s)"
  by (simp add: run_def)

lemma run_canvas_ok: "canvas_ok s \<Longrightarrow> canvas_ok (run es s)"
  by (induction es arbitrary: s) (simp_all add: step_canvas_ok)

lemma run_timer_ok: "timer_ok s \<Longrightarrow> timer_ok (run es s)"
  by (induction es arbitrary: s) (simp_all add: step_timer_ok)

lemma run_index_nonneg: "index_nonneg s \<Longrightarrow> index_nonneg (run es s)"
  by (induction es arbitrary: s) (simp_all add: step_index_nonneg)

lemma run_index_ok:
  "index_ok s \<Longrightarrow> timer_ok s \<Longrightarrow> StaleTick \<notin> set es \<Longrightarrow> index_ok (run es s)"
proof (induction es arbitrary: s)
  case Nil
  then show ?case by simp
next
  case (Cons e es)
  from Cons.prems(3) have e: "e \<noteq> StaleTick" and es: "StaleTick \<notin> set es" by auto
  have "index_ok (step e s)" using Cons.prems(1,2) e by (rule step_index_ok)
  moreover have "timer_ok (step e s)" using Cons.prems(2) by (rule step_timer_ok)
  ultimately show ?case using es by (simp add: Cons.IH)
qed

lemma run_pan_ok: "pan_ok s \<Longrightarrow> pan_ok (run es s)"
  by (induction es arbitrary: s) (simp_all add: step_pan_ok)

lemma mount_ok [simp]:
  "canvas_ok (mount v sid)" "timer_ok (mount v sid)" "index_nonneg (mount v sid)"
  "pan_ok (mount v sid)" "index_ok (mount v sid)"
  by (simp_all add: mount_def canvas_ok_def timer_ok_def index_nonneg_def index_ok_def pan_ok_def)

section \<open>The loader sorts by instance number\<close>

lemma map_images_nth:
  "map_images n xs = Inr ys \<Longrightarrow>
   length ys = length xs \<and> (\<forall>i<length xs. to_image (xs ! i) (n + i) = Inr (ys ! i))"
proof (induction xs arbitrary: n ys)
  case Nil
  then show ?case by simp
next
  case (Cons x xs)
  then obtain y ys' where y: "to_image x n = Inr y"
    and ys': "map_images (Suc n) xs = Inr ys'" and e: "ys = y # ys'"
    by (auto split: sum.splits)
  from Cons.IH [OF ys'] have l: "length ys' = length xs"
    and a: "\<forall>i<length xs. to_image (xs ! i) (Suc n + i) = Inr (ys' ! i)"
    by auto
  show ?case using y e l a by (auto simp: nth_Cons split: nat.splits)
qed

lemma load_from_mount:
  "fetch_images b sid = Inr imgs \<Longrightarrow> images (step (LoadSettled 0 b) (mount v sid)) = imgs"
  by (simp add: step_def load_settled_def mount_def)

lemma to_image_mappable: "mappable inst \<Longrightarrow> \<exists>img. to_image inst i = Inr img"
  by (auto simp: mappable_def to_image_def first_value_def first_value_opt_def
      split: attr.splits list.splits)

lemma to_image_only_mappable: "to_image inst i = Inr img \<Longrightarrow> mappable inst"
  by (auto simp: mappable_def to_image_def first_value_def first_value_opt_def
      split: attr.splits list.splits sum.splits option.splits)

lemma map_images_mappable:
  "list_all mappable xs \<Longrightarrow> \<exists>ys. map_images n xs = Inr ys"
proof (induction xs arbitrary: n)
  case Nil
  then show ?case by simp
next
  case (Cons x xs)
  from Cons.prems have "mappable x" and "list_all mappable xs" by simp_all
  from to_image_mappable [OF this(1), of n] obtain img where "to_image x n = Inr img" ..
  moreover from Cons.IH [OF \<open>list_all mappable xs\<close>, of "Suc n"]
  obtain ys where "map_images (Suc n) xs = Inr ys" ..
  ultimately show ?case by simp
qed

text \<open>
  C5. Whatever the order of the instance records in the response, and whether or not
  instance numbers repeat, the load of records the mapping does not throw on succeeds
  and hands \<open>setImages\<close> the mapped descriptors sorted ascending by \<open>instanceNumber\<close>:
  the same descriptors, and for every instance number those carrying it in the order of
  the response (\<open>mapped\<close> is position by position the image of the response).
\<close>

theorem load_sorts_stably:
  assumes "get_series b (series_url sid) = Body (ser # rest)"
    and "first_value (attr_0020000E ser) = Inr suid"
    and "get_metadata b (metadata_url sid suid) = Body instancesData"
    and "list_all mappable instancesData"
  shows "\<exists>mapped imgs.
           map_images 0 instancesData = Inr mapped \<and>
           length mapped = length instancesData \<and>
           (\<forall>i<length instancesData. to_image (instancesData ! i) i = Inr (mapped ! i)) \<and>
           fetch_images b sid = Inr imgs \<and>
           images (step (LoadSettled 0 b) (mount v sid)) = imgs \<and>
           sorted (map instanceNumber imgs) \<and>
           mset imgs = mset mapped \<and>
           (\<forall>n. filter (\<lambda>i. instanceNumber i = n) imgs =
                filter (\<lambda>i. instanceNumber i = n) mapped)"
proof -
  from map_images_mappable [OF assms(4), of 0]
  obtain mapped where mapped: "map_images 0 instancesData = Inr mapped" ..
  have f: "fetch_images b sid = Inr (sort_key instanceNumber mapped)"
    using assms(1-3) mapped by (simp add: fetch_images_def)
  have m: "length mapped = length instancesData"
    "\<forall>i<length instancesData. to_image (instancesData ! i) i = Inr (mapped ! i)"
    using map_images_nth [OF mapped] by simp_all
  show ?thesis
    using mapped f m load_from_mount [OF f] by (simp add: sort_key_stable)
qed

theorem load_sorts_stably_witness:
  "list_all mappable unsorted_slices \<and>
   map_images 0 unsorted_slices =
     Inr [\<lparr>imageId = Some ''a'', instanceNumber = 2, url = ''a''\<rparr>,
          \<lparr>imageId = Some ''b'', instanceNumber = 1, url = ''b''\<rparr>,
          \<lparr>imageId = Some ''c'', instanceNumber = 2, url = ''c''\<rparr>] \<and>
   fetch_images (sample_backend unsorted_slices) ''s'' =
     Inr [\<lparr>imageId = Some ''b'', instanceNumber = 1, url = ''b''\<rparr>,
          \<lparr>imageId = Some ''a'', instanceNumber = 2, url = ''a''\<rparr>,
          \<lparr>imageId = Some ''c'', instanceNumber = 2, url = ''c''\<rparr>] \<and>
   (\<exists>mapped imgs.
       map_images 0 unsorted_slices = Inr mapped \<and>
       fetch_images (sample_backend unsorted_slices) ''s'' = Inr imgs \<and>
       images (step (LoadSettled 0 (sample_backend unsorted_slices)) (mount Axial ''s'')) = imgs \<and>
       sorted (map instanceNumber imgs) \<and>
       (\<forall>n. filter (\<lambda>i. instanceNumber i = n) imgs = filter (\<lambda>i. instanceNumber i = n) mapped))"
proof -
  have h1: "get_series (sample_backend unsorted_slices) (series_url ''s'') =
              Body (\<lparr>attr_0020000E = Value [''ser'']\<rparr> # [])"
    by (simp add: sample_backend_def)
  have h2: "first_value (attr_0020000E \<lparr>attr_0020000E = Value [''ser'']\<rparr>) = Inr (Some ''ser'')"
    by (simp add: first_value_def)
  have h3: "get_metadata (sample_backend unsorted_slices) (metadata_url ''s'' (Some ''ser'')) =
              Body unsorted_slices"
    by (simp add: sample_backend_def)
  have h4: "list_all mappable unsorted_slices"
    by (simp add: unsorted_slices_def sample_instance_def mappable_def)
  have h5: "map_images 0 unsorted_slices =
     Inr [\<lparr>imageId = Some ''a'', instanceNumber = 2, url = ''a''\<rparr>,
          \<lparr>imageId = Some ''b'', instanceNumber = 1, url = ''b''\<rparr>,
          \<lparr>imageId = Some ''c'', instanceNumber = 2, url = ''c''\<rparr>]"
    by code_simp
  have h6: "fetch_images (sample_backend unsorted_slices) ''s'' =
     Inr [\<lparr>imageId = Some ''b'', instanceNumber = 1, url = ''b''\<rparr>,
          \<lparr>imageId = Some ''a'', instanceNumber = 2, url = ''a''\<rparr>,
          \<lparr>imageId = Some ''c'', instanceNumber = 2, url = ''c''\<rparr>]"
    by code_simp
  from load_sorts_stably [OF h1 h2 h3 h4, of Axial] h4 h5 h6 show ?thesis
    by blast
qed

lemma to_image_instanceNumber:
  assumes "to_image inst i = Inr img"
  shows "instanceNumber img =
           (case first_value_opt (attr_00200013 inst) of
              Inr (Some n) \<Rightarrow> if n = 0 then int i + 1 else n
            | _ \<Rightarrow> int i + 1)"
  using assms
  by (auto simp: to_image_def js_or_def split: sum.splits option.splits)

text \<open>
  C6. The instance number of a descriptor is meant to be the record's own number whenever
  the record has one. For a record at position 2 whose instance number is present and is
  0, the loader stores 3, the default of an absent number: \<open>||\<close> takes 0 for absent.
\<close>

theorem zero_instance_number_is_replaced:
  "to_image (sample_instance (Value [0]) ''c'') 2 =
     Inr \<lparr>imageId = Some ''c'', instanceNumber = 3, url = ''c''\<rparr>"
  by code_simp

section \<open>Scrubbing and playback\<close>

lemma reachable_ok:
  "canvas_ok (run es (mount v sid))" "timer_ok (run es (mount v sid))"
  "index_nonneg (run es (mount v sid))" "pan_ok (run es (mount v sid))"
  by (simp_all add: run_canvas_ok run_timer_ok run_index_nonneg run_pan_ok)

lemma longer_nonempty: "Suc 0 \<le> length xs \<Longrightarrow> xs \<noteq> []"
  by (cases xs) simp_all

lemma handleWheel_clamps:
  assumes "1 < length (images s)"
  shows "0 \<le> currentImageIndex (handleWheel deltaY False s)"
    and "currentImageIndex (handleWheel deltaY False s) \<le> int (length (images s)) - 1"
    and "currentImageIndex (handleWheel deltaY False s) =
           max 0 (min (int (length (images s)) - 1)
                      (currentImageIndex s + (if deltaY > 0 then - 1 else 1)))"
proof -
  have "0 \<le> int (length (images s)) - 1"
    using assms by linarith
  then show "0 \<le> currentImageIndex (handleWheel deltaY False s)"
    and "currentImageIndex (handleWheel deltaY False s) \<le> int (length (images s)) - 1"
    using assms by (auto simp: handleWheel_def Let_def)
  show "currentImageIndex (handleWheel deltaY False s) =
           max 0 (min (int (length (images s)) - 1)
                      (currentImageIndex s + (if deltaY > 0 then - 1 else 1)))"
    using assms by (simp add: handleWheel_def Let_def)
qed

lemma render_without_images:
  assumes "images s = []"
  shows "renderCurrentImage_outcome s = EarlyReturn" and "renderCurrentImage s = s"
  using assms
  by (simp_all add: renderCurrentImage_def renderCurrentImage_outcome_def split: option.split)

lemma tick_wraps:
  assumes "timer_ok s" and "index_nonneg s" and "mounted s" and "interval s = Some t"
  shows "period_ms t = 150"
    and "currentImageIndex (step Tick s) = (currentImageIndex s + 1) mod int (length (images s))"
proof -
  from assms(1,3,4) have len: "captured_length t = length (images s)" "1 < length (images s)"
    and per: "period_ms t = 150"
    by (simp_all add: timer_ok_def)
  show "period_ms t = 150" by (rule per)
  from assms(2) have idx: "0 \<le> currentImageIndex s" by (simp add: index_nonneg_def)
  have pos: "0 < int (length (images s))" using len(2) by linarith
  show "currentImageIndex (step Tick s) = (currentImageIndex s + 1) mod int (length (images s))"
    using assms(3,4) len js_rem_in_range(1) [OF idx pos]
    by (simp add: step_mounted tick_def)
qed

lemma interval_mounted:
  assumes "timer_ok s" and "interval s = Some t"
  shows "mounted s"
  using assms by (cases "mounted s") (simp_all add: timer_ok_def)

lemma index_in_range_without_stale_tick:
  assumes "StaleTick \<notin> set es" and "1 \<le> length (images (run es (mount v sid)))"
  shows "0 \<le> currentImageIndex (run es (mount v sid))"
    and "currentImageIndex (run es (mount v sid)) \<le> int (length (images (run es (mount v sid)))) - 1"
proof -
  have "index_ok (run es (mount v sid))"
    using assms(1) by (simp add: run_index_ok)
  moreover have "images (run es (mount v sid)) \<noteq> []"
    using assms(2) longer_nonempty [of "images (run es (mount v sid))"] by simp
  ultimately show "0 \<le> currentImageIndex (run es (mount v sid))"
    and "currentImageIndex (run es (mount v sid)) \<le> int (length (images (run es (mount v sid)))) - 1"
    by (simp_all add: index_ok_def)
qed

lemma slider_change_clamps:
  assumes "slider_shown s"
  shows "currentImageIndex (handle (SliderChange requested) s) =
           max 0 (min (int (length (images s)) - 1) requested)"
proof -
  from assms have "1 < length (images s)"
    by (simp add: slider_shown_def)
  then have "0 \<le> int (length (images s)) - 1"
    by linarith
  with assms show ?thesis
    by (simp add: handleSliderChange_def range_input_value_def)
qed

text \<open>
  C4. After a scrub or a tick the index is meant to lie within the sequence, and the
  wheel, the slider and the ticks of the interval in place keep it there
  (\<open>index_in_range_without_stale_tick\<close>). The callback of an interval that is about to
  be cleared does not. A viewport playing on three slices is given a study of two; the
  load settles and sets the index to 1; the effects replace the interval, but between
  the commit and that cleanup the old callback fires with the length 3 it closed over:
  \<open>(1 + 1) % 3 = 2\<close>, index 2 on two images. \<open>renderCurrentImage\<close> then reads
  \<open>images[2]\<close>, which is undefined, and catches the TypeError.
\<close>

theorem stale_tick_leaves_index_out_of_range:
  "length (images (run (take 4 stale_tick_trace) (mount Axial ''s''))) = 2 \<and>
   currentImageIndex (run (take 4 stale_tick_trace) (mount Axial ''s'')) = 1 \<and>
   interval (run (take 4 stale_tick_trace) (mount Axial ''s'')) =
     Some \<lparr>timer_id = 1, period_ms = 150, captured_length = 2\<rparr> \<and>
   stale_interval (run (take 4 stale_tick_trace) (mount Axial ''s'')) =
     Some \<lparr>timer_id = 0, period_ms = 150, captured_length = 3\<rparr> \<and>
   length (images (run stale_tick_trace (mount Axial ''s''))) = 2 \<and>
   currentImageIndex (run stale_tick_trace (mount Axial ''s'')) = 2 \<and>
   renderCurrentImage_outcome (run stale_tick_trace (mount Axial ''s'')) = Caught TypeError"
  by code_simp



section \<open>Pan\<close>

text \<open>
  C10. No handler calls \<open>setPan\<close>: in every state a viewport can reach, \<open>pan\<close> is
  \<open>(0, 0)\<close>, every image load in flight closed over that pan, and a frame on the canvas
  sits at the centred position of its drawn size, which is the fit to the canvas times
  the zoom.
\<close>

theorem pan_is_never_changed:
  "pan (run es (mount v sid)) = (0, 0) \<and>
   (\<forall>r \<in> set (inflight (run es (mount v sid))). req_pan r = (0, 0)) \<and>
   (\<forall>f. surface (run es (mount v sid)) = Frame f \<longrightarrow>
      fr_x f = (fr_canvas_width f - fr_width f) / 2 \<and>
      fr_y f = (fr_canvas_height f - fr_height f) / 2)"
  using reachable_ok(4) [of es v sid]
  by (auto simp: pan_ok_def centred_def list_all_iff)

theorem pan_is_never_changed_witness:
  "pan (run busy_trace (mount Coronal ''s'')) = (0, 0) \<and>
   surface (run busy_trace (mount Coronal ''s'')) =
     Frame \<lparr>fr_image = \<lparr>imageId = Some ''b'', instanceNumber = 2, url = ''b''\<rparr>,
            fr_canvas_width = 400, fr_canvas_height = 300, fr_x = 20, fr_y = - 30,
            fr_width = 360, fr_height = 360, fr_crosshair = True\<rparr> \<and>
   (20 :: real) = (400 - 360) / 2 \<and> (- 30 :: real) = (300 - 360) / 2"
proof -
  have s: "surface (run busy_trace (mount Coronal ''s'')) =
     Frame \<lparr>fr_image = \<lparr>imageId = Some ''b'', instanceNumber = 2, url = ''b''\<rparr>,
            fr_canvas_width = 400, fr_canvas_height = 300, fr_x = 20, fr_y = - 30,
            fr_width = 360, fr_height = 360, fr_crosshair = True\<rparr>"
    by code_simp
  from pan_is_never_changed [of busy_trace Coronal "''s''"] s show ?thesis
    by simp
qed

section \<open>Image loads in flight\<close>

lemma commit_with_canvas:
  "canvas s = Some c \<Longrightarrow> \<not> isLoading s \<Longrightarrow> surface (commit s) = surface s"
  by (simp add: commit_def)

lemma settle_asset_fields [simp]:
  "isLoading (settle_asset k d s) = isLoading s"
  "images (settle_asset k d s) = images s"
  "currentImageIndex (settle_asset k d s) = currentImageIndex s"
  "canvas (settle_asset k d s) = canvas s"
  by (simp_all add: settle_asset_def Let_def)

lemma settle_asset_surface:
  assumes "k < length (inflight s)"
  shows "surface (settle_asset k d s) =
           (if canvas s = Some (req_canvas (inflight s ! k))
            then (case d of Some dims \<Rightarrow> Frame (onload (inflight s ! k) dims) | None \<Rightarrow> Placeholder)
            else surface s)"
  using assms by (simp add: settle_asset_def Let_def)

lemma step_settle_surface:
  assumes "canvas_ok s" and "k < length (inflight s)"
    and "e = AssetLoaded k dims \<and> d = Some dims \<or> e = AssetFailed k \<and> d = None"
  shows "surface (step e s) =
           (if canvas s = Some (req_canvas (inflight s ! k))
            then (case d of Some dims \<Rightarrow> Frame (onload (inflight s ! k) dims) | None \<Rightarrow> Placeholder)
            else surface s)"
proof (cases "mounted s")
  case False
  with assms(1) have "canvas s = None" by (simp add: canvas_ok_def)
  with False show ?thesis by simp
next
  case True
  have ne: "e \<noteq> Unmount" using assms(3) by auto
  have h: "handle e s = settle_asset k d s" using assms(3) by auto
  show ?thesis
  proof (cases "canvas s")
    case None
    with assms(1) True have "isLoading s" "surface s = Blank" by (simp_all add: canvas_ok_def)
    with True ne h None show ?thesis by (simp add: step_mounted commit_def)
  next
    case (Some c)
    with assms(1) True have nl: "\<not> isLoading s" by (simp add: canvas_ok_def)
    have "surface (commit (settle_asset k d s)) = surface (settle_asset k d s)"
      by (rule commit_with_canvas [of _ c]) (use Some nl in simp_all)
    with True ne h settle_asset_surface [OF assms(2), of d] show ?thesis
      by (simp add: step_mounted)
  qed
qed

text \<open>
  C1 as the specification states it fails. On three slices the viewport renders index 1
  and, after one wheel step, index 2; both image loads are in flight. The load for
  index 2 settles first and is drawn. Then the load issued for index 1 settles: it is
  drawn over the newer render, and the canvas shows slice 2 of 3 while
  \<open>currentImageIndex\<close> is 2, the position of slice 3.
\<close>

theorem stale_load_overwrites_newer_render:
  "images (run stale_trace (mount Axial ''s'')) =
     [\<lparr>imageId = Some ''a'', instanceNumber = 1, url = ''a''\<rparr>,
      \<lparr>imageId = Some ''b'', instanceNumber = 2, url = ''b''\<rparr>,
      \<lparr>imageId = Some ''c'', instanceNumber = 3, url = ''c''\<rparr>] \<and>
   currentImageIndex (run (take 1 stale_trace) (mount Axial ''s'')) = 1 \<and>
   currentImageIndex (run (take 2 stale_trace) (mount Axial ''s'')) = 2 \<and>
   map req_image (inflight (run (take 2 stale_trace) (mount Axial ''s''))) =
     [\<lparr>imageId = Some ''b'', instanceNumber = 2, url = ''b''\<rparr>,
      \<lparr>imageId = Some ''c'', instanceNumber = 3, url = ''c''\<rparr>] \<and>
   surface (run (take 3 stale_trace) (mount Axial ''s'')) =
     Frame \<lparr>fr_image = \<lparr>imageId = Some ''c'', instanceNumber = 3, url = ''c''\<rparr>,
            fr_canvas_width = 400, fr_canvas_height = 300, fr_x = 50, fr_y = 0,
            fr_width = 300, fr_height = 300, fr_crosshair = True\<rparr> \<and>
   currentImageIndex (run stale_trace (mount Axial ''s'')) = 2 \<and>
   surface (run stale_trace (mount Axial ''s'')) =
     Frame \<lparr>fr_image = \<lparr>imageId = Some ''b'', instanceNumber = 2, url = ''b''\<rparr>,
            fr_canvas_width = 400, fr_canvas_height = 300, fr_x = 50, fr_y = 0,
            fr_width = 300, fr_height = 300, fr_crosshair = True\<rparr>"
  by code_simp

text \<open>
  C1 as the code has it. An image load is not keyed by the state it was issued against.
  When it settles, in any reachable state and in any order, its \<open>onload\<close> draws the
  frame of the slice, zoom and pan it closed over, and its \<open>onerror\<close> the placeholder,
  on the canvas element it closed over, whatever the current index is. Its result goes
  unseen only when that element is no longer the viewport's canvas, after a reload or
  an unmount.
\<close>

theorem settled_load_is_painted_unconditionally:
  "k < length (inflight (run es (mount v sid))) \<longrightarrow>
     surface (step (AssetLoaded k d) (run es (mount v sid))) =
       (if canvas (run es (mount v sid)) = Some (req_canvas (inflight (run es (mount v sid)) ! k))
        then Frame (onload (inflight (run es (mount v sid)) ! k) d)
        else surface (run es (mount v sid))) \<and>
     surface (step (AssetFailed k) (run es (mount v sid))) =
       (if canvas (run es (mount v sid)) = Some (req_canvas (inflight (run es (mount v sid)) ! k))
        then Placeholder
        else surface (run es (mount v sid)))"
proof
  let ?s = "run es (mount v sid)"
  assume k: "k < length (inflight ?s)"
  have ok: "canvas_ok ?s" by (simp add: run_canvas_ok)
  from step_settle_surface [OF ok k, of "AssetLoaded k d" d "Some d"]
    step_settle_surface [OF ok k, of "AssetFailed k" d None]
  show "surface (step (AssetLoaded k d) ?s) =
       (if canvas ?s = Some (req_canvas (inflight ?s ! k))
        then Frame (onload (inflight ?s ! k) d) else surface ?s) \<and>
     surface (step (AssetFailed k) ?s) =
       (if canvas ?s = Some (req_canvas (inflight ?s ! k))
        then Placeholder else surface ?s)"
    by simp
qed

theorem settled_load_is_painted_unconditionally_witness:
  "0 < length (inflight (run (take 3 stale_trace) (mount Axial ''s''))) \<and>
   canvas (run (take 3 stale_trace) (mount Axial ''s'')) =
     Some (req_canvas (inflight (run (take 3 stale_trace) (mount Axial ''s'')) ! 0)) \<and>
   req_image (inflight (run (take 3 stale_trace) (mount Axial ''s'')) ! 0) \<noteq>
     images (run (take 3 stale_trace) (mount Axial ''s'')) !
       nat (currentImageIndex (run (take 3 stale_trace) (mount Axial ''s''))) \<and>
   surface (step (AssetLoaded 0 sample_dims) (run (take 3 stale_trace) (mount Axial ''s''))) =
     Frame (onload (inflight (run (take 3 stale_trace) (mount Axial ''s'')) ! 0) sample_dims)"
proof -
  let ?s = "run (take 3 stale_trace) (mount Axial ''s'')"
  have a: "length (inflight ?s) = 1" by code_simp
  have b: "canvas ?s = Some (req_canvas (inflight ?s ! 0))" by code_simp
  have c: "req_image (inflight ?s ! 0) \<noteq> images ?s ! nat (currentImageIndex ?s)" by code_simp
  from settled_load_is_painted_unconditionally [of 0 "take 3 stale_trace" Axial "''s''" sample_dims]
    a b c
  show ?thesis by simp
qed

section \<open>Switching the study\<close>

lemma step_StudyChanged:
  assumes "mounted s" and "sid \<noteq> studyUid s"
  shows "studyUid (step (StudyChanged sid) s) = sid"
    and "isLoading (step (StudyChanged sid) s)"
    and "pending (step (StudyChanged sid) s) = pending s @ [sid]"
    and "images (step (StudyChanged sid) s) = images s"
    and "currentImageIndex (step (StudyChanged sid) s) = currentImageIndex s"
    and "zoom (step (StudyChanged sid) s) = zoom s"
    and "pan (step (StudyChanged sid) s) = pan s"
    and "isPlaying (step (StudyChanged sid) s) = isPlaying s"
    and "mounted (step (StudyChanged sid) s)"
  using assms by (simp_all add: step_mounted study_changed_def)

lemma step_LoadSettled_ok:
  assumes "mounted s" and "k < length (pending s)" and "fetch_images b (pending s ! k) = Inr imgs"
  shows "images (step (LoadSettled k b) s) = imgs"
    and "currentImageIndex (step (LoadSettled k b) s) = int (length imgs div 2)"
    and "zoom (step (LoadSettled k b) s) = zoom s"
    and "pan (step (LoadSettled k b) s) = pan s"
    and "isPlaying (step (LoadSettled k b) s) = isPlaying s"
    and "\<not> isLoading (step (LoadSettled k b) s)"
  using assms by (simp_all add: step_mounted load_settled_def)

lemma step_LoadSettled_failed:
  assumes "mounted s" and "k < length (pending s)" and "fetch_images b (pending s ! k) = Inl err"
  shows "images (step (LoadSettled k b) s) = images s"
    and "currentImageIndex (step (LoadSettled k b) s) = currentImageIndex s"
    and "zoom (step (LoadSettled k b) s) = zoom s"
    and "pan (step (LoadSettled k b) s) = pan s"
    and "isPlaying (step (LoadSettled k b) s) = isPlaying s"
    and "\<not> isLoading (step (LoadSettled k b) s)"
    and "pending (step (LoadSettled k b) s) = take k (pending s) @ drop (Suc k) (pending s)"
    and "loads_started (step (LoadSettled k b) s) = loads_started s"
  using assms by (simp_all add: step_mounted load_settled_def)

text \<open>
  C2 as the specification states it fails. A viewport that is playing at zoom 1.1 is
  given another study; once the new sequence is loaded it is still playing and still at
  zoom 1.1.
\<close>

theorem study_switch_keeps_zoom_and_playing:
  "studyUid (run (take 3 switch_trace) (mount Axial ''s'')) = ''s'' \<and>
   isPlaying (run (take 3 switch_trace) (mount Axial ''s'')) = True \<and>
   zoom (run (take 3 switch_trace) (mount Axial ''s'')) = 11 / 10 \<and>
   studyUid (run switch_trace (mount Axial ''s'')) = ''t'' \<and>
   isLoading (run switch_trace (mount Axial ''s'')) = False \<and>
   pending (run switch_trace (mount Axial ''s'')) = [] \<and>
   isPlaying (run switch_trace (mount Axial ''s'')) = True \<and>
   zoom (run switch_trace (mount Axial ''s'')) = 11 / 10"
  by code_simp

text \<open>
  C2 as the code has it. A changed study identifier starts a load and leaves the
  navigation state alone. When that load succeeds it replaces the sequence and sets
  \<open>currentImageIndex\<close> to \<open>floor (length / 2)\<close> of the new sequence; zoom and the
  playing flag stay what they were, and pan is \<open>(0, 0)\<close> as it always is. When the load
  fails, the sequence and the index stay as well.
\<close>

theorem study_switch_resets_index_only:
  "mounted (run es (mount v sid0)) \<and> sid \<noteq> studyUid (run es (mount v sid0)) \<longrightarrow>
     studyUid (step (StudyChanged sid) (run es (mount v sid0))) = sid \<and>
     zoom (step (StudyChanged sid) (run es (mount v sid0))) = zoom (run es (mount v sid0)) \<and>
     pan (step (StudyChanged sid) (run es (mount v sid0))) = (0, 0) \<and>
     isPlaying (step (StudyChanged sid) (run es (mount v sid0))) = isPlaying (run es (mount v sid0)) \<and>
     images (step (StudyChanged sid) (run es (mount v sid0))) = images (run es (mount v sid0)) \<and>
     currentImageIndex (step (StudyChanged sid) (run es (mount v sid0))) =
       currentImageIndex (run es (mount v sid0)) \<and>
     (fetch_images b sid = Inr imgs \<longrightarrow>
        images (run (es @ [StudyChanged sid, LoadSettled (length (pending (run es (mount v sid0)))) b]) (mount v sid0)) = imgs \<and>
        currentImageIndex (run (es @ [StudyChanged sid, LoadSettled (length (pending (run es (mount v sid0)))) b]) (mount v sid0)) =
          int (length imgs div 2) \<and>
        zoom (run (es @ [StudyChanged sid, LoadSettled (length (pending (run es (mount v sid0)))) b]) (mount v sid0)) =
          zoom (run es (mount v sid0)) \<and>
        pan (run (es @ [StudyChanged sid, LoadSettled (length (pending (run es (mount v sid0)))) b]) (mount v sid0)) = (0, 0) \<and>
        isPlaying (run (es @ [StudyChanged sid, LoadSettled (length (pending (run es (mount v sid0)))) b]) (mount v sid0)) =
          isPlaying (run es (mount v sid0))) \<and>
     (fetch_images b sid = Inl err \<longrightarrow>
        images (run (es @ [StudyChanged sid, LoadSettled (length (pending (run es (mount v sid0)))) b]) (mount v sid0)) =
          images (run es (mount v sid0)) \<and>
        currentImageIndex (run (es @ [StudyChanged sid, LoadSettled (length (pending (run es (mount v sid0)))) b]) (mount v sid0)) =
          currentImageIndex (run es (mount v sid0)) \<and>
        zoom (run (es @ [StudyChanged sid, LoadSettled (length (pending (run es (mount v sid0)))) b]) (mount v sid0)) =
          zoom (run es (mount v sid0)) \<and>
        isPlaying (run (es @ [StudyChanged sid, LoadSettled (length (pending (run es (mount v sid0)))) b]) (mount v sid0)) =
          isPlaying (run es (mount v sid0)))"
proof
  let ?s = "run es (mount v sid0)"
  let ?s1 = "step (StudyChanged sid) ?s"
  let ?k = "length (pending ?s)"
  let ?s2 = "step (LoadSettled ?k b) ?s1"
  assume "mounted ?s \<and> sid \<noteq> studyUid ?s"
  then have m: "mounted ?s" and d: "sid \<noteq> studyUid ?s" by simp_all
  note sw = step_StudyChanged [OF m d]
  have p: "pan ?s = (0, 0)"
    using reachable_ok(4) [of es v sid0] by (simp add: pan_ok_def)
  have k: "?k < length (pending ?s1)" and n: "pending ?s1 ! ?k = sid"
    by (simp_all add: sw(3))
  have r: "run (es @ [StudyChanged sid, LoadSettled ?k b]) (mount v sid0) = ?s2"
    by (simp add: run_def)
  have ok: "fetch_images b sid = Inr imgs \<longrightarrow>
      images ?s2 = imgs \<and> currentImageIndex ?s2 = int (length imgs div 2) \<and>
      zoom ?s2 = zoom ?s \<and> pan ?s2 = (0, 0) \<and> isPlaying ?s2 = isPlaying ?s"
    using step_LoadSettled_ok [OF sw(9) k, of b imgs] n sw p by simp
  have bad: "fetch_images b sid = Inl err \<longrightarrow>
      images ?s2 = images ?s \<and> currentImageIndex ?s2 = currentImageIndex ?s \<and>
      zoom ?s2 = zoom ?s \<and> isPlaying ?s2 = isPlaying ?s"
    using step_LoadSettled_failed [OF sw(9) k, of b err] n sw by simp
  show "studyUid ?s1 = sid \<and> zoom ?s1 = zoom ?s \<and> pan ?s1 = (0, 0) \<and>
     isPlaying ?s1 = isPlaying ?s \<and> images ?s1 = images ?s \<and>
     currentImageIndex ?s1 = currentImageIndex ?s \<and>
     (fetch_images b sid = Inr imgs \<longrightarrow>
        images (run (es @ [StudyChanged sid, LoadSettled ?k b]) (mount v sid0)) = imgs \<and>
        currentImageIndex (run (es @ [StudyChanged sid, LoadSettled ?k b]) (mount v sid0)) =
          int (length imgs div 2) \<and>
        zoom (run (es @ [StudyChanged sid, LoadSettled ?k b]) (mount v sid0)) = zoom ?s \<and>
        pan (run (es @ [StudyChanged sid, LoadSettled ?k b]) (mount v sid0)) = (0, 0) \<and>
        isPlaying (run (es @ [StudyChanged sid, LoadSettled ?k b]) (mount v sid0)) = isPlaying ?s) \<and>
     (fetch_images b sid = Inl err \<longrightarrow>
        images (run (es @ [StudyChanged sid, LoadSettled ?k b]) (mount v sid0)) = images ?s \<and>
        currentImageIndex (run (es @ [StudyChanged sid, LoadSettled ?k b]) (mount v sid0)) =
          currentImageIndex ?s \<and>
        zoom (run (es @ [StudyChanged sid, LoadSettled ?k b]) (mount v sid0)) = zoom ?s \<and>
        isPlaying (run (es @ [StudyChanged sid, LoadSettled ?k b]) (mount v sid0)) = isPlaying ?s)"
    unfolding r using sw p ok bad by simp
qed


theorem study_switch_resets_index_only_witness:
  "mounted (run (take 3 switch_trace) (mount Axial ''s'')) \<and>
   ''t'' \<noteq> studyUid (run (take 3 switch_trace) (mount Axial ''s'')) \<and>
   length (pending (run (take 3 switch_trace) (mount Axial ''s''))) = 0 \<and>
   fetch_images three_slices ''t'' =
     Inr [\<lparr>imageId = Some ''a'', instanceNumber = 1, url = ''a''\<rparr>,
          \<lparr>imageId = Some ''b'', instanceNumber = 2, url = ''b''\<rparr>,
          \<lparr>imageId = Some ''c'', instanceNumber = 3, url = ''c''\<rparr>] \<and>
   currentImageIndex
     (run (take 3 switch_trace @ [StudyChanged ''t'', LoadSettled 0 three_slices]) (mount Axial ''s'')) = 1 \<and>
   zoom (run (take 3 switch_trace @ [StudyChanged ''t'', LoadSettled 0 three_slices]) (mount Axial ''s'')) =
     zoom (run (take 3 switch_trace) (mount Axial ''s'')) \<and>
   isPlaying (run (take 3 switch_trace @ [StudyChanged ''t'', LoadSettled 0 three_slices]) (mount Axial ''s'')) =
     isPlaying (run (take 3 switch_trace) (mount Axial ''s'')) \<and>
   fetch_images empty_backend ''t'' = Inl NoSeriesFound \<and>
   images (run (take 3 switch_trace @ [StudyChanged ''t'', LoadSettled 0 empty_backend]) (mount Axial ''s'')) =
     images (run (take 3 switch_trace) (mount Axial ''s'')) \<and>
   isPlaying (run (take 3 switch_trace @ [StudyChanged ''t'', LoadSettled 0 empty_backend]) (mount Axial ''s'')) =
     isPlaying (run (take 3 switch_trace) (mount Axial ''s''))"
proof -
  let ?s = "run (take 3 switch_trace) (mount Axial ''s'')"
  have a: "mounted ?s" by code_simp
  have b: "''t'' \<noteq> studyUid ?s" by code_simp
  have c: "length (pending ?s) = 0" by code_simp
  have d: "fetch_images three_slices ''t'' =
     Inr [\<lparr>imageId = Some ''a'', instanceNumber = 1, url = ''a''\<rparr>,
          \<lparr>imageId = Some ''b'', instanceNumber = 2, url = ''b''\<rparr>,
          \<lparr>imageId = Some ''c'', instanceNumber = 3, url = ''c''\<rparr>]"
    by code_simp
  have e: "fetch_images empty_backend ''t'' = Inl NoSeriesFound" by code_simp
  from study_switch_resets_index_only [of "take 3 switch_trace" Axial "''s''" "''t''" three_slices
      "[\<lparr>imageId = Some ''a'', instanceNumber = 1, url = ''a''\<rparr>,
        \<lparr>imageId = Some ''b'', instanceNumber = 2, url = ''b''\<rparr>,
        \<lparr>imageId = Some ''c'', instanceNumber = 3, url = ''c''\<rparr>]" FetchFailure]
    study_switch_resets_index_only [of "take 3 switch_trace" Axial "''s''" "''t''" empty_backend
      "[]" NoSeriesFound] a b c d e
  show ?thesis by simp
qed

section \<open>The playback timer\<close>

lemma playback_effect_unchanged:
  "playback_deps s = (isPlaying s, view s, length (images s)) \<Longrightarrow> playback_effect s = s"
  by (simp add: playback_effect_def)

lemma playback_effect_changed:
  assumes "playback_deps s \<noteq> (isPlaying s, view s, length (images s))"
  shows "interval (playback_effect s) = None \<or>
         (\<exists>t. interval (playback_effect s) = Some t \<and> timer_id t = timers_created s)"
  using assms by (simp add: playback_effect_def Let_def)

lemma mounted_step: "mounted (step e s) \<Longrightarrow> mounted s \<and> e \<noteq> Unmount"
  by (cases "mounted s"; cases e) (simp_all add: step_def unmount_def)

lemma interval_kept:
  assumes "timer_ok s" and "mounted (step e s)"
    and "isPlaying (step e s) = isPlaying s"
    and "length (images (step e s)) = length (images s)"
  shows "interval (step e s) = interval s"
proof -
  from mounted_step [OF assms(2)] have m: "mounted s" and ne: "e \<noteq> Unmount" by simp_all
  from assms(1) m have deps: "playback_deps s = (isPlaying s, view s, length (images s))"
    by (simp add: timer_ok_def)
  have st: "step e s = rerender (handle e s)" using m ne by (rule step_mounted)
  from assms(3,4) have "playback_deps (handle e s) =
      (isPlaying (handle e s), view (handle e s), length (images (handle e s)))"
    by (simp add: st deps)
  then have "playback_effect (handle e s) = handle e s"
    by (rule playback_effect_unchanged)
  then show ?thesis by (simp add: st)
qed

lemma interval_replaced:
  assumes "timer_ok s" and "interval s = Some t"
    and "length (images (step e s)) \<noteq> length (images s)"
  shows "interval (step e s) \<noteq> interval s"
proof -
  have m: "mounted s" using assms(1,2) by (rule interval_mounted)
  have ne: "e \<noteq> Unmount"
  proof
    assume "e = Unmount"
    with m assms(3) show False by (simp add: unmount_def)
  qed
  from assms(1,2) m have deps: "playback_deps s = (isPlaying s, view s, length (images s))"
    and id: "timer_id t < timers_created s"
    by (simp_all add: timer_ok_def)
  have st: "step e s = rerender (handle e s)" using m ne by (rule step_mounted)
  from assms(3) have "playback_deps (handle e s) \<noteq>
      (isPlaying (handle e s), view (handle e s), length (images (handle e s)))"
    by (simp add: st deps)
  from playback_effect_changed [OF this] id assms(2) show ?thesis
    by (auto simp: st)
qed

lemma interval_after_toggle_off:
  assumes "timer_ok s" and "isPlaying s"
  shows "interval (step TogglePlay s) = None"
proof (cases "mounted s")
  case False
  with assms(1) show ?thesis by (simp add: timer_ok_def)
next
  case True
  have ok: "timer_ok (step TogglePlay s)" using assms(1) by (rule step_timer_ok)
  have m: "mounted (step TogglePlay s)" using True by (simp add: step_mounted togglePlay_def)
  show ?thesis
  proof (cases "playback_controls_shown s")
    case True
    with \<open>mounted s\<close> assms(2) have "\<not> isPlaying (step TogglePlay s)"
      by (simp add: step_mounted togglePlay_def)
    with ok m show ?thesis
      by (cases "interval (step TogglePlay s)") (simp_all add: timer_ok_def)
  next
    case False
    with \<open>mounted s\<close> have "images (step TogglePlay s) = images s" "view (step TogglePlay s) = view s"
      by (simp_all add: step_mounted togglePlay_def)
    with False ok m show ?thesis
      by (cases "interval (step TogglePlay s)")
        (auto simp: timer_ok_def playback_controls_shown_def)
  qed
qed

lemma interval_after_unmount:
  assumes "timer_ok s"
  shows "interval (step Unmount s) = None"
  using assms by (cases "mounted s") (simp_all add: unmount_def timer_ok_def)

text \<open>
  C3 as the specification states it fails. A playing viewport on three slices is given
  another study. While the new load is pending the interval set before the switch is
  still there, and its next tick moves the index from 1 to 2 on the old sequence.
\<close>

theorem timer_survives_study_switch:
  "interval (run (take 2 playing_switch_trace) (mount Axial ''s'')) =
     Some \<lparr>timer_id = 0, period_ms = 150, captured_length = 3\<rparr> \<and>
   studyUid (run (take 3 playing_switch_trace) (mount Axial ''s'')) = ''t'' \<and>
   isLoading (run (take 3 playing_switch_trace) (mount Axial ''s'')) = True \<and>
   interval (run (take 3 playing_switch_trace) (mount Axial ''s'')) =
     Some \<lparr>timer_id = 0, period_ms = 150, captured_length = 3\<rparr> \<and>
   currentImageIndex (run (take 3 playing_switch_trace) (mount Axial ''s'')) = 1 \<and>
   studyUid (run playing_switch_trace (mount Axial ''s'')) = ''t'' \<and>
   currentImageIndex (run playing_switch_trace (mount Axial ''s'')) = 2 \<and>
   images (run playing_switch_trace (mount Axial ''s'')) =
     images (run (take 2 playing_switch_trace) (mount Axial ''s''))"
  by code_simp

text \<open>
  C3 as the code has it. In every reachable state there is an interval exactly when the
  viewport is mounted, playing, not the 3D view and has more than one image, and the
  length it closed over is the current one. Changing the study identifier leaves the
  interval in place, and until the load settles a tick advances the index modulo the
  length of the sequence still held. Unmounting clears the interval, and so does
  toggling playback off. An event that changes neither the playing flag nor the length
  keeps the interval; one that changes the length replaces or clears it.
\<close>

theorem timer_follows_playback_deps:
  "(case interval (run es (mount v sid0)) of
      None \<Rightarrow> \<not> (mounted (run es (mount v sid0)) \<and> isPlaying (run es (mount v sid0)) \<and>
                 view (run es (mount v sid0)) \<noteq> View3d \<and>
                 1 < length (images (run es (mount v sid0))))
    | Some t \<Rightarrow> mounted (run es (mount v sid0)) \<and> isPlaying (run es (mount v sid0)) \<and>
                view (run es (mount v sid0)) \<noteq> View3d \<and>
                1 < length (images (run es (mount v sid0))) \<and>
                captured_length t = length (images (run es (mount v sid0)))) \<and>
   interval (step (StudyChanged sid) (run es (mount v sid0))) = interval (run es (mount v sid0)) \<and>
   interval (step Unmount (run es (mount v sid0))) = None \<and>
   (isPlaying (run es (mount v sid0)) \<longrightarrow>
      interval (step TogglePlay (run es (mount v sid0))) = None) \<and>
   (mounted (step e (run es (mount v sid0))) \<and>
    isPlaying (step e (run es (mount v sid0))) = isPlaying (run es (mount v sid0)) \<and>
    length (images (step e (run es (mount v sid0)))) = length (images (run es (mount v sid0))) \<longrightarrow>
      interval (step e (run es (mount v sid0))) = interval (run es (mount v sid0))) \<and>
   (interval (run es (mount v sid0)) \<noteq> None \<and>
    length (images (step e (run es (mount v sid0)))) \<noteq> length (images (run es (mount v sid0))) \<longrightarrow>
      interval (step e (run es (mount v sid0))) \<noteq> interval (run es (mount v sid0))) \<and>
   (interval (run es (mount v sid0)) \<noteq> None \<longrightarrow>
      currentImageIndex (step Tick (step (StudyChanged sid) (run es (mount v sid0)))) =
        (currentImageIndex (run es (mount v sid0)) + 1) mod
          int (length (images (run es (mount v sid0)))))"
proof -
  let ?s = "run es (mount v sid0)"
  let ?s1 = "step (StudyChanged sid) ?s"
  have ok: "timer_ok ?s" "index_nonneg ?s" by (rule reachable_ok)+
  have a: "case interval ?s of
      None \<Rightarrow> \<not> (mounted ?s \<and> isPlaying ?s \<and> view ?s \<noteq> View3d \<and> 1 < length (images ?s))
    | Some t \<Rightarrow> mounted ?s \<and> isPlaying ?s \<and> view ?s \<noteq> View3d \<and> 1 < length (images ?s) \<and>
                captured_length t = length (images ?s)"
    using ok(1) by (cases "interval ?s") (auto simp: timer_ok_def split: if_splits)
  have b: "interval ?s1 = interval ?s"
  proof (cases "mounted ?s")
    case False
    then show ?thesis by simp
  next
    case True
    show ?thesis
      by (rule interval_kept [OF ok(1)])
        (use True in \<open>simp_all add: step_mounted study_changed_def\<close>)
  qed
  have c: "interval (step Unmount ?s) = None"
    using ok(1) by (rule interval_after_unmount)
  have d: "isPlaying ?s \<longrightarrow> interval (step TogglePlay ?s) = None"
    using interval_after_toggle_off [OF ok(1)] by blast
  have e: "mounted (step e ?s) \<and> isPlaying (step e ?s) = isPlaying ?s \<and>
      length (images (step e ?s)) = length (images ?s) \<longrightarrow> interval (step e ?s) = interval ?s"
    using interval_kept [OF ok(1), of e] by blast
  have f: "interval ?s \<noteq> None \<and> length (images (step e ?s)) \<noteq> length (images ?s) \<longrightarrow>
      interval (step e ?s) \<noteq> interval ?s"
    using interval_replaced [OF ok(1), of _ e] by blast
  have g: "interval ?s \<noteq> None \<longrightarrow>
      currentImageIndex (step Tick ?s1) = (currentImageIndex ?s + 1) mod int (length (images ?s))"
  proof
    assume "interval ?s \<noteq> None"
    then obtain t where t: "interval ?s = Some t" by auto
    have m: "mounted ?s" using ok(1) t by (rule interval_mounted)
    have ok1: "timer_ok ?s1" "index_nonneg ?s1"
      using ok by (simp_all add: step_timer_ok step_index_nonneg)
    have same: "images ?s1 = images ?s" "currentImageIndex ?s1 = currentImageIndex ?s"
      "mounted ?s1"
      using m by (simp_all add: step_mounted study_changed_def)
    from tick_wraps(2) [OF ok1 same(3), of t] b t same
    show "currentImageIndex (step Tick ?s1) =
        (currentImageIndex ?s + 1) mod int (length (images ?s))"
      by simp
  qed
  from a b c d e f g show ?thesis by blast
qed

theorem timer_follows_playback_deps_witness:
  "interval (run (take 2 playing_switch_trace) (mount Axial ''s'')) =
     Some \<lparr>timer_id = 0, period_ms = 150, captured_length = 3\<rparr> \<and>
   isPlaying (run (take 2 playing_switch_trace) (mount Axial ''s'')) \<and>
   interval (step (StudyChanged ''t'') (run (take 2 playing_switch_trace) (mount Axial ''s''))) =
     Some \<lparr>timer_id = 0, period_ms = 150, captured_length = 3\<rparr> \<and>
   interval (step TogglePlay (run (take 2 playing_switch_trace) (mount Axial ''s''))) = None \<and>
   interval (step Unmount (run (take 2 playing_switch_trace) (mount Axial ''s''))) = None \<and>
   currentImageIndex (step Tick (step (StudyChanged ''t'')
     (run (take 2 playing_switch_trace) (mount Axial ''s'')))) = 2 \<and>
   interval (step Tick (run (take 2 playing_switch_trace) (mount Axial ''s''))) =
     Some \<lparr>timer_id = 0, period_ms = 150, captured_length = 3\<rparr> \<and>
   length (images (step (LoadSettled 0 two_slices)
     (run (take 3 playing_switch_trace) (mount Axial ''s'')))) = 2 \<and>
   interval (step (LoadSettled 0 two_slices)
     (run (take 3 playing_switch_trace) (mount Axial ''s''))) \<noteq>
     Some \<lparr>timer_id = 0, period_ms = 150, captured_length = 3\<rparr>"
proof -
  let ?s = "run (take 2 playing_switch_trace) (mount Axial ''s'')"
  let ?s1 = "run (take 3 playing_switch_trace) (mount Axial ''s'')"
  have a: "interval ?s = Some \<lparr>timer_id = 0, period_ms = 150, captured_length = 3\<rparr>"
    by code_simp
  have b: "isPlaying ?s" "currentImageIndex ?s = 1" "length (images ?s) = 3"
    by code_simp+
  have c: "mounted (step Tick ?s)" "isPlaying (step Tick ?s)" "length (images (step Tick ?s)) = 3"
    by code_simp+
  have d: "interval ?s1 = Some \<lparr>timer_id = 0, period_ms = 150, captured_length = 3\<rparr>"
    "length (images ?s1) = 3" "length (images (step (LoadSettled 0 two_slices) ?s1)) = 2"
    by code_simp+
  from timer_follows_playback_deps [of "take 2 playing_switch_trace" Axial "''s''" "''t''" Tick]
    timer_follows_playback_deps [of "take 3 playing_switch_trace" Axial "''s''" "''t''"
      "LoadSettled 0 two_slices"] a b c d
  show ?thesis by (simp add: unmount_def)
qed

section \<open>A study without series\<close>

lemma fetch_images_no_series:
  "get_series b (series_url sid) = Body [] \<Longrightarrow> fetch_images b sid = Inl NoSeriesFound"
  by (simp add: fetch_images_def)

lemma failed_first_load:
  assumes "fetch_images b sid = Inl err"
  shows "display (step (LoadSettled 0 b) (mount v sid)) = Canvas Blank False None"
    and "images (step (LoadSettled 0 b) (mount v sid)) = []"
    and "mounted (step (LoadSettled 0 b) (mount v sid))"
    and "pending (step (LoadSettled 0 b) (mount v sid)) = []"
    and "loads_started (step (LoadSettled 0 b) (mount v sid)) = 1"
  using assms
  by (simp_all add: step_def load_settled_def mount_def display_def slider_shown_def commit_def)

lemma loads_started_step:
  "loads_started (step e s) =
     (case e of
        StudyChanged sid \<Rightarrow>
          if mounted s \<and> sid \<noteq> studyUid s then Suc (loads_started s) else loads_started s
      | _ \<Rightarrow> loads_started s)"
  by (cases "mounted s"; cases e)
    (simp_all add: step_def unmount_def study_changed_def load_settled_def handleWheel_def
      handleSliderChange_def togglePlay_def tick_def stale_tick_def settle_asset_def Let_def
      split: sum.split option.split)

lemma pending_step:
  "pending (step e s) =
     (case e of
        StudyChanged sid \<Rightarrow>
          if mounted s \<and> sid \<noteq> studyUid s then pending s @ [sid] else pending s
      | LoadSettled k b \<Rightarrow>
          if mounted s \<and> k < length (pending s)
          then take k (pending s) @ drop (Suc k) (pending s) else pending s
      | _ \<Rightarrow> pending s)"
  by (cases "mounted s"; cases e)
    (simp_all add: step_def unmount_def study_changed_def load_settled_def handleWheel_def
      handleSliderChange_def togglePlay_def tick_def stale_tick_def settle_asset_def Let_def
      split: sum.split option.split)

lemma display_after_failed_load:
  assumes "canvas_ok s" and "mounted s" and "k < length (pending s)"
    and "fetch_images b (pending s ! k) = Inl err"
  shows "display (step (LoadSettled k b) s) = display (s\<lparr>isLoading := False\<rparr>)"
proof -
  let ?s1 = "load_settled k b s"
  have st: "step (LoadSettled k b) s = rerender ?s1"
    using assms(2) by (simp add: step_mounted)
  have f: "\<not> isLoading ?s1" "images ?s1 = images s" "currentImageIndex ?s1 = currentImageIndex s"
    "view ?s1 = view s" "canvas ?s1 = canvas s" "surface ?s1 = surface s"
    using assms(3,4) by (simp_all add: load_settled_def)
  have "surface (commit ?s1) = surface s"
  proof (cases "canvas s")
    case None
    with assms(1) have "surface s = Blank" by (simp add: canvas_ok_def)
    with None f show ?thesis by (simp add: commit_def)
  next
    case (Some c)
    with f show ?thesis by (simp add: commit_def)
  qed
  with f show ?thesis
    by (simp add: st display_def slider_shown_def)
qed

text \<open>
  C8 as the specification states it fails. A viewport showing three slices is given the
  study \<open>zzz\<close>, whose series list is empty. The load fails and the viewport leaves
  the spinner with the old sequence still in place: a blank canvas under the old slider
  and the instance number 2. One wheel step later the canvas shows slice 3 of the old
  study, in a viewport whose study is \<open>zzz\<close>.
\<close>

theorem failed_switch_keeps_old_sequence:
  "fetch_images empty_backend ''zzz'' = Inl NoSeriesFound \<and>
   studyUid (run (take 3 empty_switch_trace) (mount Axial ''s'')) = ''zzz'' \<and>
   isLoading (run (take 3 empty_switch_trace) (mount Axial ''s'')) = False \<and>
   pending (run (take 3 empty_switch_trace) (mount Axial ''s'')) = [] \<and>
   images (run (take 3 empty_switch_trace) (mount Axial ''s'')) =
     [\<lparr>imageId = Some ''a'', instanceNumber = 1, url = ''a''\<rparr>,
      \<lparr>imageId = Some ''b'', instanceNumber = 2, url = ''b''\<rparr>,
      \<lparr>imageId = Some ''c'', instanceNumber = 3, url = ''c''\<rparr>] \<and>
   display (run (take 3 empty_switch_trace) (mount Axial ''s'')) = Canvas Blank True (Some 2) \<and>
   studyUid (run empty_switch_trace (mount Axial ''s'')) = ''zzz'' \<and>
   display (run empty_switch_trace (mount Axial ''s'')) =
     Canvas (Frame \<lparr>fr_image = \<lparr>imageId = Some ''c'', instanceNumber = 3, url = ''c''\<rparr>,
                     fr_canvas_width = 400, fr_canvas_height = 300, fr_x = 50, fr_y = 0,
                     fr_width = 300, fr_height = 300, fr_crosshair = True\<rparr>)
            True (Some 3)"
  by code_simp

text \<open>
  C8 as the code has it. When the series list of a study is empty the load throws
  "No series found" and catches it. The viewport stays mounted, clears \<open>isLoading\<close>
  and keeps its sequence and index: it shows what it showed before, without the spinner.
  For each of the four viewports freshly mounted on the study that is the canvas with
  nothing drawn, no slider and no instance; a viewport that held a sequence keeps its
  slider and instance overlay. A viewport starts one load when it mounts. A change of
  the study identifier to another value queues one more load, of the new study, and
  shows the spinner; no other event queues a load, and a settled load, failed or not,
  only leaves the queue.
\<close>

theorem empty_series_load_fails_in_place:
  "(get_series b (series_url sid) = Body [] \<longrightarrow>
      fetch_images b sid = Inl NoSeriesFound \<and>
      (\<forall>s \<in> set (mount_grid sid).
         mounted (step (LoadSettled 0 b) s) \<and>
         images (step (LoadSettled 0 b) s) = [] \<and>
         pending (step (LoadSettled 0 b) s) = [] \<and>
         display (step (LoadSettled 0 b) s) = Canvas Blank False None) \<and>
      (mounted (run es (mount v sid0)) \<and> k < length (pending (run es (mount v sid0))) \<and>
       pending (run es (mount v sid0)) ! k = sid \<longrightarrow>
         mounted (step (LoadSettled k b) (run es (mount v sid0))) \<and>
         \<not> isLoading (step (LoadSettled k b) (run es (mount v sid0))) \<and>
         images (step (LoadSettled k b) (run es (mount v sid0))) = images (run es (mount v sid0)) \<and>
         currentImageIndex (step (LoadSettled k b) (run es (mount v sid0))) =
           currentImageIndex (run es (mount v sid0)) \<and>
         display (step (LoadSettled k b) (run es (mount v sid0))) =
           display ((run es (mount v sid0))\<lparr>isLoading := False\<rparr>))) \<and>
   map view (mount_grid sid) = [Axial, Coronal, Sagittal, View3d] \<and>
   (\<forall>s \<in> set (mount_grid sid).
      studyUid s = sid \<and> isLoading s \<and> pending s = [sid] \<and> loads_started s = 1 \<and>
      display s = Spinner) \<and>
   pending (step e s) =
     (case e of
        StudyChanged sid' \<Rightarrow>
          if mounted s \<and> sid' \<noteq> studyUid s then pending s @ [sid'] else pending s
      | LoadSettled j b' \<Rightarrow>
          if mounted s \<and> j < length (pending s)
          then take j (pending s) @ drop (Suc j) (pending s) else pending s
      | _ \<Rightarrow> pending s) \<and>
   loads_started (step e s) =
     (case e of
        StudyChanged sid' \<Rightarrow>
          if mounted s \<and> sid' \<noteq> studyUid s then Suc (loads_started s) else loads_started s
      | _ \<Rightarrow> loads_started s) \<and>
   (mounted s \<and> sid' \<noteq> studyUid s \<longrightarrow>
      studyUid (step (StudyChanged sid') s) = sid' \<and>
      isLoading (step (StudyChanged sid') s) \<and>
      display (step (StudyChanged sid') s) = Spinner \<and>
      (fetch_images b' sid' = Inr imgs \<longrightarrow>
         images (step (LoadSettled (length (pending s)) b') (step (StudyChanged sid') s)) = imgs))"
proof -
  let ?s = "run es (mount v sid0)"
  have a: "get_series b (series_url sid) = Body [] \<longrightarrow>
      fetch_images b sid = Inl NoSeriesFound \<and>
      (\<forall>s \<in> set (mount_grid sid).
         mounted (step (LoadSettled 0 b) s) \<and>
         images (step (LoadSettled 0 b) s) = [] \<and>
         pending (step (LoadSettled 0 b) s) = [] \<and>
         display (step (LoadSettled 0 b) s) = Canvas Blank False None) \<and>
      (mounted ?s \<and> k < length (pending ?s) \<and> pending ?s ! k = sid \<longrightarrow>
         mounted (step (LoadSettled k b) ?s) \<and>
         \<not> isLoading (step (LoadSettled k b) ?s) \<and>
         images (step (LoadSettled k b) ?s) = images ?s \<and>
         currentImageIndex (step (LoadSettled k b) ?s) = currentImageIndex ?s \<and>
         display (step (LoadSettled k b) ?s) = display (?s\<lparr>isLoading := False\<rparr>))"
  proof
    assume "get_series b (series_url sid) = Body []"
    then have f: "fetch_images b sid = Inl NoSeriesFound"
      by (rule fetch_images_no_series)
    have g: "\<forall>s \<in> set (mount_grid sid).
         mounted (step (LoadSettled 0 b) s) \<and>
         images (step (LoadSettled 0 b) s) = [] \<and>
         pending (step (LoadSettled 0 b) s) = [] \<and>
         display (step (LoadSettled 0 b) s) = Canvas Blank False None"
      using failed_first_load [OF f] by (simp add: mount_grid_def)
    have h: "mounted ?s \<and> k < length (pending ?s) \<and> pending ?s ! k = sid \<longrightarrow>
         mounted (step (LoadSettled k b) ?s) \<and>
         \<not> isLoading (step (LoadSettled k b) ?s) \<and>
         images (step (LoadSettled k b) ?s) = images ?s \<and>
         currentImageIndex (step (LoadSettled k b) ?s) = currentImageIndex ?s \<and>
         display (step (LoadSettled k b) ?s) = display (?s\<lparr>isLoading := False\<rparr>)"
    proof
      assume p: "mounted ?s \<and> k < length (pending ?s) \<and> pending ?s ! k = sid"
      then have m: "mounted ?s" and k: "k < length (pending ?s)"
        and fk: "fetch_images b (pending ?s ! k) = Inl NoSeriesFound"
        using f by simp_all
      have "mounted (step (LoadSettled k b) ?s)"
        using m handle_static(1) [of "LoadSettled k b" ?s] by (simp add: step_mounted)
      moreover note step_LoadSettled_failed(1,2,6) [OF m k fk]
      moreover have "display (step (LoadSettled k b) ?s) = display (?s\<lparr>isLoading := False\<rparr>)"
        using reachable_ok(1) m k fk by (rule display_after_failed_load)
      ultimately show "mounted (step (LoadSettled k b) ?s) \<and>
         \<not> isLoading (step (LoadSettled k b) ?s) \<and>
         images (step (LoadSettled k b) ?s) = images ?s \<and>
         currentImageIndex (step (LoadSettled k b) ?s) = currentImageIndex ?s \<and>
         display (step (LoadSettled k b) ?s) = display (?s\<lparr>isLoading := False\<rparr>)"
        by simp
    qed
    from f g h show "fetch_images b sid = Inl NoSeriesFound \<and>
      (\<forall>s \<in> set (mount_grid sid).
         mounted (step (LoadSettled 0 b) s) \<and>
         images (step (LoadSettled 0 b) s) = [] \<and>
         pending (step (LoadSettled 0 b) s) = [] \<and>
         display (step (LoadSettled 0 b) s) = Canvas Blank False None) \<and>
      (mounted ?s \<and> k < length (pending ?s) \<and> pending ?s ! k = sid \<longrightarrow>
         mounted (step (LoadSettled k b) ?s) \<and>
         \<not> isLoading (step (LoadSettled k b) ?s) \<and>
         images (step (LoadSettled k b) ?s) = images ?s \<and>
         currentImageIndex (step (LoadSettled k b) ?s) = currentImageIndex ?s \<and>
         display (step (LoadSettled k b) ?s) = display (?s\<lparr>isLoading := False\<rparr>))"
      by blast
  qed
  have b: "map view (mount_grid sid) = [Axial, Coronal, Sagittal, View3d]"
    by (simp add: mount_grid_def mount_def)
  have c: "\<forall>s \<in> set (mount_grid sid).
      studyUid s = sid \<and> isLoading s \<and> pending s = [sid] \<and> loads_started s = 1 \<and>
      display s = Spinner"
    by (simp add: mount_grid_def mount_def display_def)
  have d: "mounted s \<and> sid' \<noteq> studyUid s \<longrightarrow>
      studyUid (step (StudyChanged sid') s) = sid' \<and>
      isLoading (step (StudyChanged sid') s) \<and>
      display (step (StudyChanged sid') s) = Spinner \<and>
      (fetch_images b' sid' = Inr imgs \<longrightarrow>
         images (step (LoadSettled (length (pending s)) b') (step (StudyChanged sid') s)) = imgs)"
  proof
    assume "mounted s \<and> sid' \<noteq> studyUid s"
    then have m: "mounted s" and n: "sid' \<noteq> studyUid s" by simp_all
    note sw = step_StudyChanged [OF m n]
    have k: "length (pending s) < length (pending (step (StudyChanged sid') s))"
      and p: "pending (step (StudyChanged sid') s) ! length (pending s) = sid'"
      by (simp_all add: sw(3))
    have "fetch_images b' sid' = Inr imgs \<longrightarrow>
         images (step (LoadSettled (length (pending s)) b') (step (StudyChanged sid') s)) = imgs"
      using step_LoadSettled_ok(1) [OF sw(9) k, of b' imgs] p by simp
    with sw(1,2) show "studyUid (step (StudyChanged sid') s) = sid' \<and>
      isLoading (step (StudyChanged sid') s) \<and>
      display (step (StudyChanged sid') s) = Spinner \<and>
      (fetch_images b' sid' = Inr imgs \<longrightarrow>
         images (step (LoadSettled (length (pending s)) b') (step (StudyChanged sid') s)) = imgs)"
      by (simp add: display_def)
  qed
  from a b c d pending_step [of e s] loads_started_step [of e s] show ?thesis
    by blast
qed


theorem empty_series_load_fails_in_place_witness:
  "get_series empty_backend (series_url ''zzz'') = Body [] \<and>
   fetch_images empty_backend ''zzz'' = Inl NoSeriesFound \<and>
   map (\<lambda>s. display (step (LoadSettled 0 empty_backend) s)) (mount_grid ''zzz'') =
     [Canvas Blank False None, Canvas Blank False None, Canvas Blank False None,
      Canvas Blank False None] \<and>
   mounted (run (take 2 empty_switch_trace) (mount Axial ''s'')) \<and>
   pending (run (take 2 empty_switch_trace) (mount Axial ''s'')) = [''zzz''] \<and>
   \<not> isLoading (step (LoadSettled 0 empty_backend)
     (run (take 2 empty_switch_trace) (mount Axial ''s''))) \<and>
   length (images (step (LoadSettled 0 empty_backend)
     (run (take 2 empty_switch_trace) (mount Axial ''s'')))) = 3 \<and>
   display (step (LoadSettled 0 empty_backend)
     (run (take 2 empty_switch_trace) (mount Axial ''s''))) = Canvas Blank True (Some 2) \<and>
   pending (step (StudyChanged ''yyy'') (mount Axial ''zzz'')) = [''zzz'', ''yyy''] \<and>
   pending (step (StudyChanged ''zzz'') (mount Axial ''zzz'')) = [''zzz''] \<and>
   pending (step (LoadSettled 0 empty_backend) (mount Axial ''zzz'')) = [] \<and>
   studyUid (step (StudyChanged ''yyy'') (mount Axial ''zzz'')) = ''yyy'' \<and>
   length (images (step (LoadSettled 1 three_slices)
     (step (StudyChanged ''yyy'') (mount Axial ''zzz'')))) = 3"
proof -
  let ?s = "run (take 2 empty_switch_trace) (mount Axial ''s'')"
  let ?m = "mount Axial ''zzz''"
  have a: "get_series empty_backend (series_url ''zzz'') = Body []"
    by (simp add: empty_backend_def)
  have s: "mounted ?s" "pending ?s = [''zzz'']" "length (images ?s) = 3"
    "display (?s\<lparr>isLoading := False\<rparr>) = Canvas Blank True (Some 2)"
    by code_simp+
  have m: "mounted ?m" "pending ?m = [''zzz'']" "studyUid ?m = ''zzz''"
    by (simp_all add: mount_def)
  have f: "fetch_images three_slices ''yyy'' =
     Inr [\<lparr>imageId = Some ''a'', instanceNumber = 1, url = ''a''\<rparr>,
          \<lparr>imageId = Some ''b'', instanceNumber = 2, url = ''b''\<rparr>,
          \<lparr>imageId = Some ''c'', instanceNumber = 3, url = ''c''\<rparr>]"
    by code_simp
  note t = empty_series_load_fails_in_place [of empty_backend "''zzz''"
      "take 2 empty_switch_trace" Axial "''s''" 0]
  from t [of Tick ?m] a
  have "fetch_images empty_backend ''zzz'' = Inl NoSeriesFound"
    and "\<forall>s \<in> set (mount_grid ''zzz'').
         mounted (step (LoadSettled 0 empty_backend) s) \<and>
         images (step (LoadSettled 0 empty_backend) s) = [] \<and>
         pending (step (LoadSettled 0 empty_backend) s) = [] \<and>
         display (step (LoadSettled 0 empty_backend) s) = Canvas Blank False None"
    by blast+
  moreover from t [of Tick ?m] a s
  have "\<not> isLoading (step (LoadSettled 0 empty_backend) ?s)"
    and "length (images (step (LoadSettled 0 empty_backend) ?s)) = 3"
    and "display (step (LoadSettled 0 empty_backend) ?s) = Canvas Blank True (Some 2)"
    by simp_all
  moreover from t [of "StudyChanged ''yyy''" ?m "''yyy''" three_slices
      "[\<lparr>imageId = Some ''a'', instanceNumber = 1, url = ''a''\<rparr>,
        \<lparr>imageId = Some ''b'', instanceNumber = 2, url = ''b''\<rparr>,
        \<lparr>imageId = Some ''c'', instanceNumber = 3, url = ''c''\<rparr>]"] m f
  have "pending (step (StudyChanged ''yyy'') ?m) = [''zzz'', ''yyy'']"
    and "studyUid (step (StudyChanged ''yyy'') ?m) = ''yyy''"
    and "length (images (step (LoadSettled 1 three_slices) (step (StudyChanged ''yyy'') ?m))) = 3"
    by simp_all
  moreover from t [of "StudyChanged ''zzz''" ?m] m
  have "pending (step (StudyChanged ''zzz'') ?m) = [''zzz'']"
    by simp
  moreover from t [of "LoadSettled 0 empty_backend" ?m] m
  have "pending (step (LoadSettled 0 empty_backend) ?m) = []"
    by simp
  ultimately show ?thesis using a s by (simp add: mount_grid_def)
qed

section \<open>Upload\<close>

text \<open>
  C9. With exactly two uploaded files, one tagged image and one tagged mask, a selected
  radiography type and an \<open>ok\<close> response whose body parses, \<open>startUpload\<close> schedules
  \<open>onUploadComplete\<close> with the response's \<open>study_uid\<close>, and the page goes from the
  upload step to the viewer step with that \<open>studyId\<close>.
\<close>

theorem upload_success_opens_viewer:
  assumes "length uploadedFiles = 2"
    and "find (\<lambda>f. kind f = ImageFile) uploadedFiles = Some imageFile"
    and "find (\<lambda>f. kind f = MaskFile) uploadedFiles = Some maskFile"
    and "radiographyType \<noteq> []"
    and "server \<lparr>image_file = file_obj imageFile, mask_file = file_obj maskFile,
                 radiography_type = radiographyType\<rparr> = Answer True (Some result)"
  shows "startUpload uploadedFiles radiographyType server =
           CompleteAfter 500 (study_uid result) (segmentation_classes result) \<and>
         currentStep index_initial = UploadStep \<and>
         currentStep (upload_then_complete uploadedFiles radiographyType server index_initial) =
           ViewerStep \<and>
         studyId (upload_then_complete uploadedFiles radiographyType server index_initial) =
           study_uid result"
  using assms
  by (simp add: startUpload_def upload_then_complete_def handleUploadComplete_def
      index_initial_def)

theorem upload_success_opens_viewer_witness:
  "length two_files = 2 \<and>
   map kind two_files = [ImageFile, MaskFile] \<and>
   currentStep index_initial = UploadStep \<and>
   currentStep (upload_then_complete two_files ''cbct'' accepting_server index_initial) =
     ViewerStep \<and>
   studyId (upload_then_complete two_files ''cbct'' accepting_server index_initial) = ''abc123''"
proof -
  have a: "length two_files = 2" "map kind two_files = [ImageFile, MaskFile]"
    by (simp_all add: two_files_def)
  have b: "find (\<lambda>f. kind f = ImageFile) two_files =
             Some \<lparr>file_obj = ''scan.nii.gz'', kind = ImageFile, file_id = ''k3j9x2m1q''\<rparr>"
    by (simp add: two_files_def)
  have c: "find (\<lambda>f. kind f = MaskFile) two_files =
             Some \<lparr>file_obj = ''labels.nii.gz'', kind = MaskFile, file_id = ''p0w8e7r6t''\<rparr>"
    by (simp add: two_files_def)
  have d: "''cbct'' \<noteq> []" by simp
  have e: "accepting_server \<lparr>image_file = file_obj \<lparr>file_obj = ''scan.nii.gz'', kind = ImageFile, file_id = ''k3j9x2m1q''\<rparr>,
        mask_file = file_obj \<lparr>file_obj = ''labels.nii.gz'', kind = MaskFile, file_id = ''p0w8e7r6t''\<rparr>,
        radiography_type = ''cbct''\<rparr> =
      Answer True (Some \<lparr>study_uid = ''abc123'', segmentation_classes = [''enamel'', ''dentin'']\<rparr>)"
    by (simp add: accepting_server_def)
  from upload_success_opens_viewer [where server = accepting_server, OF a(1) b c d e] a
  show ?thesis
    by simp
qed

end
